theory Spec2Isabelle
  imports Main
begin

section \<open>Python values and string operations used by the scraper\<close>

text \<open>
  Exceptions are values. The classes are the ones the handlers of the source tell
  apart (\<open>requests.RequestException\<close>, \<open>OSError\<close>) and the ones the code itself can
  raise (\<open>IndexError\<close> from \<open>[0]\<close>, \<open>UnboundLocalError\<close> from reading a local before
  it is bound); every other exception of a collaborator is \<open>OtherException\<close>.
  The string is the message, \<open>str(e)\<close>.
\<close>

datatype exn =
    RequestException string
  | OSError string
  | IndexError string
  | UnboundLocalError string
  | OtherException string

fun str_exn :: "exn \<Rightarrow> string" where
  "str_exn (RequestException m) = m"
| "str_exn (OSError m) = m"
| "str_exn (IndexError m) = m"
| "str_exn (UnboundLocalError m) = m"
| "str_exn (OtherException m) = m"

text \<open>\<open>s.startswith(p)\<close>, \<open>s.endswith(p)\<close> and \<open>p in s\<close> on strings.\<close>

definition startswith :: "string \<Rightarrow> string \<Rightarrow> bool" where
  "startswith s p = (take (length p) s = p)"

definition endswith :: "string \<Rightarrow> string \<Rightarrow> bool" where
  "endswith s p = (length p \<le> length s \<and> drop (length s - length p) s = p)"

fun contains :: "string \<Rightarrow> string \<Rightarrow> bool" where
  "contains [] p = (p = [])"
| "contains (c # cs) p = (startswith (c # cs) p \<or> contains cs p)"

text \<open>
  \<open>s.lower()\<close>: the letters A to Z are mapped to a to z. No character outside
  A to Z lowers to one of \<open>s\<close>, \<open>v\<close>, \<open>g\<close> or the dot, so for the test
  \<open>".svg" in url.lower()\<close> this is what Python computes.
\<close>

definition lower_char :: "char \<Rightarrow> char" where
  "lower_char c =
     (case map_of (zip ''ABCDEFGHIJKLMNOPQRSTUVWXYZ'' ''abcdefghijklmnopqrstuvwxyz'') c of
        Some l \<Rightarrow> l
      | None \<Rightarrow> c)"

definition lower :: "string \<Rightarrow> string" where
  "lower s = map lower_char s"

text \<open>
  \<open>s.split()\<close>: the maximal runs of non-whitespace characters, in order. A
  character stands for a code point below 256; the whitespace ones among them, by
  \<open>str.isspace\<close>, are the ASCII ones, U+0085 and U+00A0.
\<close>

definition isspace :: "char \<Rightarrow> bool" where
  "isspace c = (c \<in> set [CHR 0x09, CHR 0x0A, CHR 0x0B, CHR 0x0C, CHR 0x0D,
                          CHR 0x1C, CHR 0x1D, CHR 0x1E, CHR 0x1F, CHR '' '',
                          CHR 0x85, CHR 0xA0])"

fun split_ws_from :: "string \<Rightarrow> string \<Rightarrow> string list" where
  "split_ws_from cur [] = (if cur = [] then [] else [cur])"
| "split_ws_from cur (c # cs) =
     (if isspace c then (if cur = [] then split_ws_from [] cs else cur # split_ws_from [] cs)
      else split_ws_from (cur @ [c]) cs)"

definition split_ws :: "string \<Rightarrow> string list" where
  "split_ws s = split_ws_from [] s"

text \<open>\<open>s.split(sep)\<close> for a one-character separator: never the empty list.\<close>

fun split_sep_from :: "char \<Rightarrow> string \<Rightarrow> string \<Rightarrow> string list" where
  "split_sep_from sep cur [] = [cur]"
| "split_sep_from sep cur (c # cs) =
     (if c = sep then cur # split_sep_from sep [] cs else split_sep_from sep (cur @ [c]) cs)"

definition split_sep :: "char \<Rightarrow> string \<Rightarrow> string list" where
  "split_sep sep s = split_sep_from sep [] s"

text \<open>\<open>xs[0]\<close> raises IndexError on the empty list.\<close>

definition first_item :: "'a list \<Rightarrow> exn + 'a" where
  "first_item xs = (case xs of [] \<Rightarrow> Inl (IndexError ''list index out of range'') | x # _ \<Rightarrow> Inr x)"

text \<open>Truthiness of an optional string, and \<open>a or b\<close> on optional strings.\<close>

definition truthy :: "string option \<Rightarrow> bool" where
  "truthy v = (case v of None \<Rightarrow> False | Some s \<Rightarrow> s \<noteq> [])"

definition py_or :: "string option \<Rightarrow> string option \<Rightarrow> string option" where
  "py_or a b = (if truthy a then a else b)"

section \<open>The parsed page as the scraper observes it\<close>

text \<open>
  The HTML parser is a collaborator. An \<open>img\<close> element is what the scraper reads of it:
  its attributes (\<open>get\<close>, \<open>has_attr\<close>, \<open>[]\<close>), the name of its parent and the stripped
  text of the first \<open>figcaption\<close> under that parent, and the next sibling element with
  its name, classes and stripped text.
\<close>

record sibling =
  sib_name :: string
  sib_class :: "string list"
  sib_text :: string

record img_element =
  attrs :: "string \<rightharpoonup> string"
  parent_name :: "string option"
  parent_figcaption :: "string option"
  next_sibling :: "sibling option"

text \<open>
  The soup: the stripped text of the first \<open>title\<close> element if there is one, the
  \<open>img\<close> elements in document order (\<open>find_all("img")\<close>), and for a CSS selector the
  \<open>img\<close> elements, in document order, under the first element it selects
  (\<open>select_one(selector)\<close> followed by \<open>find_all("img")\<close>), None when it selects nothing.
\<close>

record soup =
  find_title :: "string option"
  find_all_img :: "img_element list"
  select_one :: "string \<Rightarrow> img_element list option"

definition get_attr :: "img_element \<Rightarrow> string \<Rightarrow> string option" where
  "get_attr img k = attrs img k"

definition get_attr_default :: "img_element \<Rightarrow> string \<Rightarrow> string \<Rightarrow> string" where
  "get_attr_default img k d = (case attrs img k of None \<Rightarrow> d | Some v \<Rightarrow> v)"

definition has_attr :: "img_element \<Rightarrow> string \<Rightarrow> bool" where
  "has_attr img k = (attrs img k \<noteq> None)"

section \<open>web\_scraper.py: URL extraction and filtering\<close>

text \<open>
  \<open>WebScraper._extract_image_url\<close>. The library function \<open>urljoin\<close> is a parameter.
  The result is the exception raised, or the optional URL returned.
\<close>

definition srcset_first :: "string \<Rightarrow> exn + string" where
  "srcset_first srcset =
     (case first_item (split_ws srcset) of
        Inl e \<Rightarrow> Inl e
      | Inr tok \<Rightarrow> first_item (split_sep (CHR '','') tok))"

definition pick_source :: "img_element \<Rightarrow> exn + string option" where
  "pick_source img =
     (let img_url = py_or (get_attr img ''src'') (get_attr img ''data-src'') in
      if \<not> truthy img_url \<and> has_attr img ''srcset''
      then (case srcset_first (get_attr_default img ''srcset'' []) of
              Inl e \<Rightarrow> Inl e
            | Inr u \<Rightarrow> Inr (Some u))
      else Inr img_url)"

definition resolve_url :: "(string \<Rightarrow> string \<Rightarrow> string) \<Rightarrow> string \<Rightarrow> string \<Rightarrow> string" where
  "resolve_url urljoin base_url img_url =
     (if startswith img_url ''//'' then ''https:'' @ img_url
      else if startswith img_url ''/'' then urljoin base_url img_url
      else if \<not> startswith img_url ''http'' then urljoin base_url img_url
      else img_url)"

definition extract_image_url ::
  "(string \<Rightarrow> string \<Rightarrow> string) \<Rightarrow> img_element \<Rightarrow> string \<Rightarrow> exn + string option" where
  "extract_image_url urljoin img base_url =
     (case pick_source img of
        Inl e \<Rightarrow> Inl e
      | Inr img_url \<Rightarrow>
          if \<not> truthy img_url then Inr None
          else Inr (Some (resolve_url urljoin base_url (the img_url))))"

text \<open>\<open>WebScraper._is_svg\<close>.\<close>

definition is_svg :: "string \<Rightarrow> bool" where
  "is_svg url = (endswith (lower url) ''.svg'' \<or> contains (lower url) ''.svg'')"

section \<open>The network, the image decoder and the captioning model\<close>

text \<open>
  The collaborators of the pipeline are the fields of a world. The pipeline is
  sequential, so the outcome of an external call may depend on how many external calls
  (HTTP requests and model calls) the run has made before it: that count is the first
  argument of \<open>http_get\<close> and of \<open>generate_caption\<close>, and the functions below take it as
  \<open>t\<close>. \<open>html_parser\<close> is \<open>BeautifulSoup(response.text, "html.parser")\<close>,
  \<open>image_open\<close> opens downloaded bytes (\<open>Image.open(BytesIO(...))\<close>), \<open>path_open\<close>
  opens a local file (\<open>Image.open(path)\<close>) and \<open>image_convert\<close> is
  \<open>image.convert(mode)\<close>; each of them can raise. Opening reads the header only, so
  an image whose data is truncated opens, has a size and a mode, and fails when it is
  converted.
\<close>

datatype http_result =
    Failed string
  | Response nat string

record image =
  width :: nat
  height :: nat
  mode :: string

record world =
  http_get :: "nat \<Rightarrow> string \<Rightarrow> http_result"
  html_parser :: "string \<Rightarrow> exn + soup"
  image_open :: "string \<Rightarrow> exn + image"
  image_convert :: "image \<Rightarrow> string \<Rightarrow> exn + image"
  generate_caption :: "nat \<Rightarrow> image \<Rightarrow> string option \<Rightarrow> exn + string"
  path_open :: "string \<Rightarrow> exn + image"
  urljoin :: "string \<Rightarrow> string \<Rightarrow> string"

text \<open>
  \<open>requests.get(url, ...)\<close> followed by \<open>response.raise_for_status()\<close>: a transport
  failure raises, and so does a status from 400 to 599. The result is the body. The
  message of the status error stands for the library's text, which no branch reads.
\<close>

definition raise_for_status :: "nat \<Rightarrow> bool" where
  "raise_for_status status = (400 \<le> status \<and> status < 600)"

definition get_checked :: "world \<Rightarrow> nat \<Rightarrow> string \<Rightarrow> exn + string" where
  "get_checked w t url =
     (case http_get w t url of
        Failed m \<Rightarrow> Inl (RequestException m)
      | Response status body \<Rightarrow>
          if raise_for_status status then Inl (RequestException ''HTTPError'')
          else Inr body)"

section \<open>web\_scraper.py: scraping a page\<close>

text \<open>
  The dictionaries the scraper returns. \<open>scrape_images\<close> sets the keys url, alt,
  title, width, height, index; \<open>scrape_article_images\<close> sets url, alt, title, caption,
  index. A key that one of them does not set is None.
\<close>

record image_data =
  d_url :: string
  d_alt :: string
  d_title :: string
  d_width :: "string option"
  d_height :: "string option"
  d_caption :: "string option"
  d_index :: nat

text \<open>
  The loop of \<open>scrape_images\<close> over \<open>enumerate(img_elements, start=1)\<close>: \<open>idx\<close> counts
  every element, also the ones that \<open>continue\<close> skips.
\<close>

fun scrape_images_loop ::
  "(string \<Rightarrow> string \<Rightarrow> string) \<Rightarrow> string \<Rightarrow> nat \<Rightarrow> img_element list \<Rightarrow> image_data list
     \<Rightarrow> exn + image_data list" where
  "scrape_images_loop uj url idx [] images = Inr images"
| "scrape_images_loop uj url idx (img # rest) images =
     (case extract_image_url uj img url of
        Inl e \<Rightarrow> Inl e
      | Inr img_url \<Rightarrow>
          if \<not> truthy img_url then scrape_images_loop uj url (idx + 1) rest images
          else if is_svg (the img_url) then scrape_images_loop uj url (idx + 1) rest images
          else if startswith (the img_url) ''data:''
            then scrape_images_loop uj url (idx + 1) rest images
          else scrape_images_loop uj url (idx + 1) rest
                 (images @ [\<lparr> d_url = the img_url,
                              d_alt = get_attr_default img ''alt'' [],
                              d_title = get_attr_default img ''title'' [],
                              d_width = Some (get_attr_default img ''width'' []),
                              d_height = Some (get_attr_default img ''height'' []),
                              d_caption = None,
                              d_index = idx \<rparr>]))"

text \<open>
  \<open>WebScraper.scrape_images\<close>. Both handlers log and re-raise, so an exception of the
  body is the exception of the call.
\<close>

definition scrape_images ::
  "world \<Rightarrow> nat \<Rightarrow> string \<Rightarrow> int \<Rightarrow> int \<Rightarrow> exn + image_data list" where
  "scrape_images w t url min_width min_height =
     (case get_checked w t url of
        Inl e \<Rightarrow> Inl e
      | Inr body \<Rightarrow>
          (case html_parser w body of
             Inl e \<Rightarrow> Inl e
           | Inr sp \<Rightarrow> scrape_images_loop (urljoin w) url 1 (find_all_img sp) []))"

text \<open>\<open>WebScraper._extract_caption\<close>.\<close>

definition extract_caption :: "img_element \<Rightarrow> string" where
  "extract_caption img =
     (case (if parent_name img = Some ''figure'' then parent_figcaption img else None) of
        Some txt \<Rightarrow> txt
      | None \<Rightarrow>
          (case next_sibling img of
             None \<Rightarrow> []
           | Some sib \<Rightarrow>
               if sib_name sib \<in> set [''p'', ''div'', ''span''] \<and> ''caption'' \<in> set (sib_class sib)
               then sib_text sib else []))"

text \<open>\<open>WebScraper.scrape_article_images\<close>: the selector loop, the element loop, the call.\<close>

definition default_content_selectors :: "string list" where
  "default_content_selectors =
     [''article'', ''.article-content'', ''.post-content'', ''.entry-content'', ''#content'', ''main'']"

fun find_content :: "soup \<Rightarrow> string list \<Rightarrow> img_element list option" where
  "find_content sp [] = None"
| "find_content sp (selector # rest) =
     (case select_one sp selector of
        Some content \<Rightarrow> Some content
      | None \<Rightarrow> find_content sp rest)"

fun scrape_article_loop ::
  "(string \<Rightarrow> string \<Rightarrow> string) \<Rightarrow> string \<Rightarrow> nat \<Rightarrow> img_element list \<Rightarrow> image_data list
     \<Rightarrow> exn + image_data list" where
  "scrape_article_loop uj url idx [] images = Inr images"
| "scrape_article_loop uj url idx (img # rest) images =
     (case extract_image_url uj img url of
        Inl e \<Rightarrow> Inl e
      | Inr img_url \<Rightarrow>
          if \<not> truthy img_url \<or> is_svg (the img_url) \<or> startswith (the img_url) ''data:''
          then scrape_article_loop uj url (idx + 1) rest images
          else scrape_article_loop uj url (idx + 1) rest
                 (images @ [\<lparr> d_url = the img_url,
                              d_alt = get_attr_default img ''alt'' [],
                              d_title = get_attr_default img ''title'' [],
                              d_width = None,
                              d_height = None,
                              d_caption = Some (extract_caption img),
                              d_index = idx \<rparr>]))"

definition scrape_article_images ::
  "world \<Rightarrow> nat \<Rightarrow> string \<Rightarrow> string list option \<Rightarrow> exn + image_data list" where
  "scrape_article_images w t url content_selectors =
     (let selectors = (case content_selectors of None \<Rightarrow> default_content_selectors | Some cs \<Rightarrow> cs)
      in case get_checked w t url of
           Inl e \<Rightarrow> Inl e
         | Inr body \<Rightarrow>
             (case html_parser w body of
                Inl e \<Rightarrow> Inl e
              | Inr sp \<Rightarrow>
                  (let img_elements = (case find_content sp selectors of
                                         None \<Rightarrow> find_all_img sp
                                       | Some content \<Rightarrow> content)
                   in scrape_article_loop (urljoin w) url 1 img_elements [])))"

text \<open>
  \<open>WebScraper.get_page_title\<close>: the body of the \<open>try\<close>, and the call with its handler,
  which returns the empty string for every exception.
\<close>

definition get_page_title_try :: "world \<Rightarrow> nat \<Rightarrow> string \<Rightarrow> exn + string" where
  "get_page_title_try w t url =
     (case get_checked w t url of
        Inl e \<Rightarrow> Inl e
      | Inr body \<Rightarrow>
          (case html_parser w body of
             Inl e \<Rightarrow> Inl e
           | Inr sp \<Rightarrow>
               (case find_title sp of
                  Some title \<Rightarrow> Inr title
                | None \<Rightarrow> Inr [])))"

definition get_page_title :: "world \<Rightarrow> nat \<Rightarrow> string \<Rightarrow> exn + string" where
  "get_page_title w t url =
     (case get_page_title_try w t url of
        Inl e \<Rightarrow> Inr []
      | Inr title \<Rightarrow> Inr title)"

section \<open>image\_downloader.py\<close>

text \<open>
  \<open>ImageDownloader.download_image\<close>: the body of the \<open>try\<close>, then the call with its
  three handlers (RequestException, OSError, Exception), each of which returns None.
\<close>

definition download_image_try :: "world \<Rightarrow> nat \<Rightarrow> string \<Rightarrow> int \<Rightarrow> exn + image option" where
  "download_image_try w t url min_size =
     (case get_checked w t url of
        Inl e \<Rightarrow> Inl e
      | Inr body \<Rightarrow>
          (case image_open w body of
             Inl e \<Rightarrow> Inl e
           | Inr img \<Rightarrow>
               if int (width img * height img) < min_size then Inr None
               else if mode img \<noteq> ''RGB'' then
                 (case image_convert w img ''RGB'' of
                    Inl e \<Rightarrow> Inl e
                  | Inr rgb \<Rightarrow> Inr (Some rgb))
               else Inr (Some img)))"

definition download_image :: "world \<Rightarrow> nat \<Rightarrow> string \<Rightarrow> int \<Rightarrow> exn + image option" where
  "download_image w t url min_size =
     (case download_image_try w t url min_size of
        Inl (RequestException m) \<Rightarrow> Inr None
      | Inl (OSError m) \<Rightarrow> Inr None
      | Inl e \<Rightarrow> Inr None
      | Inr r \<Rightarrow> Inr r)"

definition default_min_size :: int where
  "default_min_size = 200"

section \<open>image\_captioner.py: the pipeline\<close>

text \<open>
  The dictionaries of the summary. A result of \<open>process_url\<close> has the key title and
  no key original\_caption; a result of \<open>process_article\<close> has original\_caption and no
  title. An absent key is None.
\<close>

record caption_result =
  r_image_url :: string
  r_caption :: string
  r_alt :: string
  r_title :: "string option"
  r_original_caption :: "string option"
  r_width :: nat
  r_height :: nat
  r_index :: nat

record failure =
  e_index :: nat
  e_url :: string
  e_error :: string

record summary =
  s_url :: string
  s_title :: string
  total_images_found :: nat
  images_processed :: nat
  images_failed :: nat
  results :: "caption_result list"
  errors :: "failure list"

text \<open>\<open>if max_images: images = images[:max_images]\<close>, with Python's slice for a negative bound.\<close>

definition slice_to :: "'a list \<Rightarrow> int \<Rightarrow> 'a list" where
  "slice_to xs m = (if 0 \<le> m then take (nat m) xs else take (length xs - nat (- m)) xs)"

definition cap_images :: "int option \<Rightarrow> image_data list \<Rightarrow> image_data list" where
  "cap_images max_images images =
     (case max_images of
        None \<Rightarrow> images
      | Some m \<Rightarrow> if m \<noteq> 0 then slice_to images m else images)"

text \<open>
  One iteration of the loop of \<open>process_url\<close>: the body of the \<open>try\<close> with its handler.
  It returns the two lists and the count of external calls after the iteration.
\<close>

definition process_url_item ::
  "world \<Rightarrow> int \<Rightarrow> string option \<Rightarrow> nat \<Rightarrow> nat \<Rightarrow> image_data
     \<Rightarrow> caption_result list \<times> failure list \<Rightarrow> (caption_result list \<times> failure list) \<times> nat" where
  "process_url_item w min_image_size prompt t idx img_data acc =
     (case download_image w t (d_url img_data) min_image_size of
        Inl e \<Rightarrow>
          ((fst acc, snd acc @ [\<lparr> e_index = idx, e_url = d_url img_data, e_error = str_exn e \<rparr>]),
           t + 1)
      | Inr None \<Rightarrow>
          ((fst acc, snd acc @ [\<lparr> e_index = idx, e_url = d_url img_data,
                                  e_error = ''Download failed or image too small'' \<rparr>]),
           t + 1)
      | Inr (Some img) \<Rightarrow>
          (case generate_caption w (t + 1) img prompt of
             Inl e \<Rightarrow>
               ((fst acc, snd acc @ [\<lparr> e_index = idx, e_url = d_url img_data, e_error = str_exn e \<rparr>]),
                t + 2)
           | Inr caption \<Rightarrow>
               ((fst acc @ [\<lparr> r_image_url = d_url img_data,
                              r_caption = caption,
                              r_alt = d_alt img_data,
                              r_title = Some (d_title img_data),
                              r_original_caption = None,
                              r_width = width img,
                              r_height = height img,
                              r_index = idx \<rparr>], snd acc),
                t + 2)))"

fun process_url_loop ::
  "world \<Rightarrow> int \<Rightarrow> string option \<Rightarrow> nat \<Rightarrow> nat \<Rightarrow> image_data list
     \<Rightarrow> caption_result list \<times> failure list \<Rightarrow> caption_result list \<times> failure list" where
  "process_url_loop w min_image_size prompt t idx [] acc = acc"
| "process_url_loop w min_image_size prompt t idx (img_data # rest) acc =
     (case process_url_item w min_image_size prompt t idx img_data acc of
        (acc', t') \<Rightarrow> process_url_loop w min_image_size prompt t' (idx + 1) rest acc')"

text \<open>
  \<open>ImageCaptionPipeline.process_url\<close>, for a pipeline built with \<open>min_image_size\<close>.
  \<open>scrape_images\<close> is called with its default \<open>min_width\<close> and \<open>min_height\<close>.
\<close>

definition process_url ::
  "world \<Rightarrow> int \<Rightarrow> nat \<Rightarrow> string \<Rightarrow> string option \<Rightarrow> int option \<Rightarrow> exn + summary" where
  "process_url w min_image_size t url prompt max_images =
     (case get_page_title w t url of
        Inl e \<Rightarrow> Inl e
      | Inr page_title \<Rightarrow>
          (case scrape_images w (t + 1) url 200 200 of
             Inl e \<Rightarrow> Inl e
           | Inr found \<Rightarrow>
               (let images = cap_images max_images found;
                    out = process_url_loop w min_image_size prompt (t + 2) 1 images ([], [])
                in Inr \<lparr> s_url = url,
                         s_title = page_title,
                         total_images_found = length images,
                         images_processed = length (fst out),
                         images_failed = length (snd out),
                         results = fst out,
                         errors = snd out \<rparr>)))"

text \<open>
  \<open>ImageCaptionPipeline.process_article\<close>: no cap, \<open>download_image\<close> with its default
  \<open>min_size\<close>, another failure text, and original\_caption in place of title.
\<close>

definition process_article_item ::
  "world \<Rightarrow> string option \<Rightarrow> nat \<Rightarrow> nat \<Rightarrow> image_data
     \<Rightarrow> caption_result list \<times> failure list \<Rightarrow> (caption_result list \<times> failure list) \<times> nat" where
  "process_article_item w prompt t idx img_data acc =
     (case download_image w t (d_url img_data) default_min_size of
        Inl e \<Rightarrow>
          ((fst acc, snd acc @ [\<lparr> e_index = idx, e_url = d_url img_data, e_error = str_exn e \<rparr>]),
           t + 1)
      | Inr None \<Rightarrow>
          ((fst acc, snd acc @ [\<lparr> e_index = idx, e_url = d_url img_data,
                                  e_error = ''Download failed'' \<rparr>]),
           t + 1)
      | Inr (Some img) \<Rightarrow>
          (case generate_caption w (t + 1) img prompt of
             Inl e \<Rightarrow>
               ((fst acc, snd acc @ [\<lparr> e_index = idx, e_url = d_url img_data, e_error = str_exn e \<rparr>]),
                t + 2)
           | Inr caption \<Rightarrow>
               ((fst acc @ [\<lparr> r_image_url = d_url img_data,
                              r_caption = caption,
                              r_alt = d_alt img_data,
                              r_title = None,
                              r_original_caption =
                                Some (case d_caption img_data of None \<Rightarrow> [] | Some c \<Rightarrow> c),
                              r_width = width img,
                              r_height = height img,
                              r_index = idx \<rparr>], snd acc),
                t + 2)))"

fun process_article_loop ::
  "world \<Rightarrow> string option \<Rightarrow> nat \<Rightarrow> nat \<Rightarrow> image_data list
     \<Rightarrow> caption_result list \<times> failure list \<Rightarrow> caption_result list \<times> failure list" where
  "process_article_loop w prompt t idx [] acc = acc"
| "process_article_loop w prompt t idx (img_data # rest) acc =
     (case process_article_item w prompt t idx img_data acc of
        (acc', t') \<Rightarrow> process_article_loop w prompt t' (idx + 1) rest acc')"

definition process_article ::
  "world \<Rightarrow> nat \<Rightarrow> string \<Rightarrow> string option \<Rightarrow> exn + summary" where
  "process_article w t url prompt =
     (case get_page_title w t url of
        Inl e \<Rightarrow> Inl e
      | Inr page_title \<Rightarrow>
          (case scrape_article_images w (t + 1) url None of
             Inl e \<Rightarrow> Inl e
           | Inr images \<Rightarrow>
               (let out = process_article_loop w prompt (t + 2) 1 images ([], [])
                in Inr \<lparr> s_url = url,
                         s_title = page_title,
                         total_images_found = length images,
                         images_processed = length (fst out),
                         images_failed = length (snd out),
                         results = fst out,
                         errors = snd out \<rparr>)))"

section \<open>caption\_generator.py and the batch mode for local files\<close>

text \<open>
  The dictionaries of \<open>caption_single\<close> and \<open>caption_batch\<close>: image\_path, prompt and
  caption on success; image\_path, caption = None and error in the handler of the batch.
\<close>

record batch_result =
  b_image_path :: string
  b_prompt :: "string option"
  b_caption :: "string option"
  b_error :: "string option"

text \<open>\<open>BLIP2Model.generate_caption_from_path\<close>: its handler logs and re-raises.\<close>

definition generate_caption_from_path ::
  "world \<Rightarrow> nat \<Rightarrow> string \<Rightarrow> string option \<Rightarrow> exn + string" where
  "generate_caption_from_path w t image_path prompt =
     (case path_open w image_path of
        Inl e \<Rightarrow> Inl e
      | Inr img \<Rightarrow>
          (case image_convert w img ''RGB'' of
             Inl e \<Rightarrow> Inl e
           | Inr rgb \<Rightarrow> generate_caption w t rgb prompt))"

text \<open>\<open>CaptionGenerator.caption_single\<close>, for a generator built with \<open>default_prompt\<close>.\<close>

definition caption_single ::
  "world \<Rightarrow> string option \<Rightarrow> nat \<Rightarrow> string \<Rightarrow> string option \<Rightarrow> exn + batch_result" where
  "caption_single w default_prompt t image_path prompt =
     (let used_prompt = py_or prompt default_prompt in
      case generate_caption_from_path w t image_path used_prompt of
        Inl e \<Rightarrow> Inl e
      | Inr caption \<Rightarrow>
          Inr \<lparr> b_image_path = image_path, b_prompt = used_prompt,
                b_caption = Some caption, b_error = None \<rparr>)"

text \<open>
  \<open>CaptionGenerator.caption_batch\<close>. Its \<open>for\<close> statement is
  \<open>for idx, image_path in enumerate(image_path, start=1)\<close>: the iterable names the loop
  variable \<open>image_path\<close>, a local of the function that nothing has bound when the
  iterable is evaluated, and not the parameter \<open>image_paths\<close>. Reading an unbound local
  raises UnboundLocalError, outside the \<open>try\<close> of the loop body. The loop body is modelled
  as written, for the value the local would have to hold: a string, iterated character by
  character.
\<close>

fun caption_batch_loop ::
  "world \<Rightarrow> string option \<Rightarrow> nat \<Rightarrow> string option \<Rightarrow> string list \<Rightarrow> batch_result list
     \<Rightarrow> batch_result list" where
  "caption_batch_loop w default_prompt t prompt [] out = out"
| "caption_batch_loop w default_prompt t prompt (image_path # rest) out =
     (let t' = (case path_open w image_path of
                  Inl e \<Rightarrow> t
                | Inr img \<Rightarrow> (case image_convert w img ''RGB'' of Inl e \<Rightarrow> t | Inr rgb \<Rightarrow> t + 1))
      in
      case caption_single w default_prompt t image_path prompt of
        Inr result \<Rightarrow> caption_batch_loop w default_prompt t' prompt rest (out @ [result])
      | Inl e \<Rightarrow>
          caption_batch_loop w default_prompt t' prompt rest
            (out @ [\<lparr> b_image_path = image_path, b_prompt = None,
                        b_caption = None, b_error = Some (str_exn e) \<rparr>]))"

definition caption_batch ::
  "world \<Rightarrow> string option \<Rightarrow> nat \<Rightarrow> string list \<Rightarrow> string option \<Rightarrow> exn + batch_result list" where
  "caption_batch w default_prompt t image_paths prompt =
     (let image_path = (None :: string option) in
      case image_path of
        None \<Rightarrow> Inl (UnboundLocalError ''image_path'')
      | Some s \<Rightarrow> Inr (caption_batch_loop w default_prompt t prompt (map (\<lambda>c. [c]) s) []))"

text \<open>
  \<open>ImageCaptionPipeline.process_image_batch\<close>: the pipeline builds its generator with no
  default prompt.
\<close>

definition process_image_batch ::
  "world \<Rightarrow> nat \<Rightarrow> string list \<Rightarrow> string option \<Rightarrow> exn + batch_result list" where
  "process_image_batch w t image_paths prompt = caption_batch w None t image_paths prompt"

section \<open>A standard relative-URL resolution\<close>

text \<open>
  Modelled from the spec: \<open>urljoin\<close> is a function of the Python standard library, not
  of the repository; the spec calls it "standard relative-URL resolution". This is the
  resolution of RFC 3986, section 5.2, for a base of the form
  \<open>scheme://authority/path?query#fragment\<close>: a reference with a scheme (a letter, then
  letters, digits, plus, minus or dot, then a colon) is returned as it is, a network-path reference takes the scheme of the base, an absolute-path reference
  takes scheme and authority, any other reference is merged with the path of the base,
  and dot segments are removed. The theorems about the scraper hold for every
  \<open>urljoin\<close>; this one serves where a concrete page is evaluated.
\<close>

definition scheme_chars :: "string \<Rightarrow> bool" where
  "scheme_chars h =
     (case h of
        [] \<Rightarrow> False
      | c # cs \<Rightarrow>
          c \<in> set ''abcdefghijklmnopqrstuvwxyzABCDEFGHIJKLMNOPQRSTUVWXYZ'' \<and>
          (\<forall>x \<in> set cs.
             x \<in> set ''abcdefghijklmnopqrstuvwxyzABCDEFGHIJKLMNOPQRSTUVWXYZ0123456789+-.''))"

definition ref_scheme :: "string \<Rightarrow> string option" where
  "ref_scheme r =
     (let h = takeWhile (\<lambda>c. c \<notin> set '':/?#'') r
      in if h \<noteq> [] \<and> startswith (drop (length h) r) '':'' \<and> scheme_chars h
         then Some h else None)"

fun dot_segments :: "string list \<Rightarrow> string list \<Rightarrow> string list" where
  "dot_segments out [] = out"
| "dot_segments out (seg # rest) =
     (if seg = ''..'' then dot_segments (butlast out) rest
      else if seg = ''.'' then dot_segments out rest
      else dot_segments (out @ [seg]) rest)"

definition normalise_path :: "string \<Rightarrow> string" where
  "normalise_path p =
     (let segs = split_sep (CHR ''/'') (tl p);
          kept = dot_segments [] segs;
          kept' = (if last segs = ''.'' \<or> last segs = ''..'' then kept @ [[]] else kept)
      in if kept' = [] then ''/'' else concat (map (\<lambda>seg. ''/'' @ seg) kept'))"

definition merge_paths :: "string \<Rightarrow> string \<Rightarrow> string" where
  "merge_paths bpath rpath =
     (if bpath = [] then ''/'' @ rpath
      else rev (dropWhile (\<lambda>c. c \<noteq> CHR ''/'') (rev bpath)) @ rpath)"

definition std_urljoin :: "string \<Rightarrow> string \<Rightarrow> string" where
  "std_urljoin base r =
     (if r = [] then base
      else if ref_scheme r \<noteq> None then r
      else
        (let scheme = takeWhile (\<lambda>c. c \<noteq> CHR '':'') base;
             rest = drop (length scheme + 3) base;
             authority = takeWhile (\<lambda>c. c \<notin> set ''/?#'') rest;
             bpath = takeWhile (\<lambda>c. c \<notin> set ''?#'') (drop (length authority) rest);
             bquery = takeWhile (\<lambda>c. c \<noteq> CHR ''#'') (drop (length authority + length bpath) rest);
             rpath = takeWhile (\<lambda>c. c \<notin> set ''?#'') r;
             rtail = drop (length rpath) r
         in if startswith r ''//'' then scheme @ '':'' @ r
            else if startswith r ''/'' then scheme @ ''://'' @ authority @ normalise_path rpath @ rtail
            else if rpath = [] then
              scheme @ ''://'' @ authority @ bpath @ (if startswith rtail ''#'' then bquery else []) @ rtail
            else scheme @ ''://'' @ authority @ normalise_path (merge_paths bpath rpath) @ rtail))"

section \<open>Concrete pages\<close>

definition img_tag :: "(string \<times> string) list \<Rightarrow> img_element" where
  "img_tag kvs = \<lparr> attrs = map_of kvs, parent_name = None, parent_figcaption = None,
                   next_sibling = None \<rparr>"

definition page_of :: "img_element list \<Rightarrow> soup" where
  "page_of imgs = \<lparr> find_title = Some ''Page'', find_all_img = imgs, select_one = (\<lambda>sel. None) \<rparr>"

text \<open>
  A world that serves one page at \<open>https://example.com/page\<close> with the given \<open>img\<close>
  elements; every image URL answers with the status and the decoded image that
  \<open>serve\<close> gives for it, whatever the request count; every conversion succeeds; the
  model captions every image as \<open>a picture\<close>.
\<close>

definition page_world :: "img_element list \<Rightarrow> (string \<Rightarrow> nat \<times> (exn + image)) \<Rightarrow> world" where
  "page_world imgs serve =
     \<lparr> http_get = (\<lambda>t u. if u = ''https://example.com/page'' then Response 200 ''<html>''
                          else Response (fst (serve u)) u),
       html_parser = (\<lambda>body. Inr (page_of imgs)),
       image_open = (\<lambda>body. snd (serve body)),
       image_convert = (\<lambda>img m. Inr (img\<lparr>mode := m\<rparr>)),
       generate_caption = (\<lambda>t img prompt. Inr ''a picture''),
       path_open = (\<lambda>p. Inl (OSError ''No such file'')),
       urljoin = std_urljoin \<rparr>"

definition photo :: "nat \<Rightarrow> nat \<Rightarrow> nat \<times> (exn + image)" where
  "photo wd ht = (200, Inr \<lparr> width = wd, height = ht, mode = ''RGB'' \<rparr>)"


definition hosted :: "string \<Rightarrow> string" where
  "hosted name = ''https://example.com/'' @ name"

definition page_url :: string where
  "page_url = ''https://example.com/page''"

text \<open>A page whose first \<open>img\<close> is an SVG logo and whose second is a photograph.\<close>

definition logo_then_photo :: world where
  "logo_then_photo =
     page_world [img_tag [(''src'', ''/logo.svg'')], img_tag [(''src'', ''/cat.jpg''), (''alt'', ''Cat'')]]
       (\<lambda>u. photo 300 300)"



text \<open>
  A page with a titled photograph and an image that answers 404; no content selector
  matches, so both modes see the same two elements.
\<close>

definition cat_serve :: "string \<Rightarrow> nat \<times> (exn + image)" where
  "cat_serve u =
     (if u = hosted ''missing.png'' then (404, Inl (OSError ''cannot identify image file''))
      else photo 300 300)"

definition cat_and_missing :: world where
  "cat_and_missing =
     page_world [img_tag [(''src'', ''/cat.jpg''), (''alt'', ''Cat''), (''title'', ''My cat'')],
                 img_tag [(''src'', ''/missing.png'')]]
       cat_serve"

text \<open>A page with five photographs, and the same page when the first request times out.\<close>

definition five_photos :: world where
  "five_photos =
     page_world [img_tag [(''src'', ''/1.jpg'')], img_tag [(''src'', ''/2.jpg'')],
                 img_tag [(''src'', ''/3.jpg'')], img_tag [(''src'', ''/4.jpg'')],
                 img_tag [(''src'', ''/5.jpg'')]]
       (\<lambda>u. photo 300 300)"



definition first_request_fails :: "world \<Rightarrow> world" where
  "first_request_fails w =
     w\<lparr> http_get := (\<lambda>t u. if t = 0 then Failed ''timed out'' else http_get w t u) \<rparr>"

section \<open>Notions used in the statements\<close>

text \<open>
  \<open>tracks idx ds rs es\<close>: the results \<open>rs\<close> and the failures \<open>es\<close> account for the
  descriptors \<open>ds\<close>, numbered from \<open>idx\<close> by position: one record for each position,
  indexes ascending in each list, no index in both, and each record carries the URL of
  the descriptor at its position.
\<close>

definition tracks :: "nat \<Rightarrow> image_data list \<Rightarrow> caption_result list \<Rightarrow> failure list \<Rightarrow> bool" where
  "tracks idx ds rs es \<longleftrightarrow>
     length rs + length es = length ds \<and>
     sorted_wrt (<) (map r_index rs) \<and>
     sorted_wrt (<) (map e_index es) \<and>
     set (map r_index rs) \<inter> set (map e_index es) = {} \<and>
     set (map r_index rs) \<union> set (map e_index es) = {idx ..< idx + length ds} \<and>
     (\<forall>r \<in> set rs. r_image_url r = d_url (ds ! (r_index r - idx))) \<and>
     (\<forall>e \<in> set es. e_url e = d_url (ds ! (e_index e - idx)))"

text \<open>The fields that a result has in both modes, and the fields of a failure but its text.\<close>

definition common_fields :: "caption_result \<Rightarrow> nat \<times> string \<times> string \<times> string \<times> nat \<times> nat" where
  "common_fields r = (r_index r, r_image_url r, r_caption r, r_alt r, r_width r, r_height r)"

definition failure_key :: "failure \<Rightarrow> nat \<times> string" where
  "failure_key e = (e_index e, e_url e)"

text \<open>An absolute URL with the scheme http or https.\<close>

definition absolute_http :: "string \<Rightarrow> bool" where
  "absolute_http u = (startswith u ''http://'' \<or> startswith u ''https://'')"

section \<open>Evaluation of the concrete pages\<close>

lemmas string_defs = startswith_def endswith_def lower_def lower_char_def is_svg_def
  truthy_def py_or_def

lemmas element_defs = img_tag_def get_attr_def get_attr_default_def has_attr_def
  pick_source_def resolve_url_def extract_image_url_def

lemmas urljoin_defs = std_urljoin_def ref_scheme_def normalise_path_def merge_paths_def
  split_sep_def

lemma page_world_title: "get_page_title (page_world imgs serve) t page_url = Inr ''Page''"
  by (simp add: get_page_title_def get_page_title_try_def get_checked_def page_world_def
      page_url_def raise_for_status_def page_of_def)

lemma page_world_caption: "generate_caption (page_world imgs serve) t img p = Inr ''a picture''"
  by (simp add: page_world_def)

lemma page_world_scrape:
  "scrape_images (page_world imgs serve) t page_url a b
     = scrape_images_loop std_urljoin page_url 1 imgs []"
  by (simp add: scrape_images_def get_checked_def page_world_def page_url_def
      raise_for_status_def page_of_def)

lemma page_world_scrape_article:
  "scrape_article_images (page_world imgs serve) t page_url None
     = scrape_article_loop std_urljoin page_url 1 imgs []"
  by (simp add: scrape_article_images_def get_checked_def page_world_def page_url_def
      raise_for_status_def page_of_def default_content_selectors_def)

lemma page_world_download_photo:
  assumes "serve u = photo a b" "u \<noteq> page_url" "m \<le> int (a * b)"
  shows "download_image (page_world imgs serve) t u m
           = Inr (Some \<lparr> width = a, height = b, mode = ''RGB'' \<rparr>)"
  using assms
  by (simp add: download_image_def download_image_try_def get_checked_def page_world_def
      page_url_def raise_for_status_def photo_def)

lemma page_world_download_none:
  assumes "u \<noteq> page_url"
    and "fst (serve u) = 404 \<or> (\<exists>e. snd (serve u) = Inl e)
           \<or> (\<exists>a b. serve u = photo a b \<and> int (a * b) < m)"
  shows "download_image (page_world imgs serve) t u m = Inr None"
  using assms
  by (auto simp: download_image_def download_image_try_def get_checked_def page_world_def
      page_url_def raise_for_status_def photo_def split: exn.splits)

lemma logo_then_photo_scrape:
  "scrape_images logo_then_photo t page_url a b
     = Inr [\<lparr> d_url = ''https://example.com/cat.jpg'', d_alt = ''Cat'', d_title = [],
               d_width = Some [], d_height = Some [], d_caption = None, d_index = 2 \<rparr>]"
  unfolding logo_then_photo_def page_world_scrape
  by (simp add: element_defs string_defs urljoin_defs page_url_def)

lemma logo_then_photo_run:
  "process_url logo_then_photo 200 0 page_url None None =
     Inr \<lparr> s_url = page_url, s_title = ''Page'', total_images_found = 1,
           images_processed = 1, images_failed = 0,
           results = [\<lparr> r_image_url = ''https://example.com/cat.jpg'', r_caption = ''a picture'',
                        r_alt = ''Cat'', r_title = Some [], r_original_caption = None,
                        r_width = 300, r_height = 300, r_index = 1 \<rparr>],
           errors = [] \<rparr>"
proof -
  have dl: "download_image logo_then_photo t ''https://example.com/cat.jpg'' 200
              = Inr (Some \<lparr> width = 300, height = 300, mode = ''RGB'' \<rparr>)" for t
    unfolding logo_then_photo_def
    by (rule page_world_download_photo) (simp_all add: page_url_def)
  have ti: "get_page_title logo_then_photo t page_url = Inr ''Page''" for t
    unfolding logo_then_photo_def by (rule page_world_title)
  have ca: "generate_caption logo_then_photo t img p = Inr ''a picture''" for t img p
    unfolding logo_then_photo_def by (rule page_world_caption)
  show ?thesis
    by (simp add: process_url_def ti logo_then_photo_scrape cap_images_def
        process_url_item_def dl ca)
qed

section \<open>The scraper\<close>

text \<open>
  What the loop of \<open>scrape_images\<close> appends: descriptors with ascending indexes from the
  range of the elements visited, none with a URL that contains \<open>.svg\<close> in any case or
  starts with the lowercase \<open>data:\<close>.
\<close>

lemma scrape_images_loop_appends:
  "scrape_images_loop uj url idx imgs acc = Inr out \<Longrightarrow>
     \<exists>new. out = acc @ new \<and> sorted_wrt (<) (map d_index new) \<and> length new \<le> length imgs \<and>
       (\<forall>d \<in> set new. idx \<le> d_index d \<and> d_index d < idx + length imgs \<and>
          \<not> is_svg (d_url d) \<and> \<not> startswith (d_url d) ''data:'' \<and> d_url d \<noteq> [])"
proof (induction imgs arbitrary: idx acc)
  case Nil
  then show ?case by simp
next
  case (Cons img rest)
  obtain v where ex: "extract_image_url uj img url = Inr v"
    using Cons.prems by (cases "extract_image_url uj img url") simp_all
  show ?case
  proof (cases "truthy v \<and> \<not> is_svg (the v) \<and> \<not> startswith (the v) ''data:''")
    case False
    then have "scrape_images_loop uj url (idx + 1) rest acc = Inr out"
      using Cons.prems ex by (auto split: if_splits)
    from Cons.IH [OF this] obtain new where
      n: "out = acc @ new" "sorted_wrt (<) (map d_index new)" "length new \<le> length rest"
        "\<forall>d \<in> set new. idx + 1 \<le> d_index d \<and> d_index d < idx + 1 + length rest \<and>
          \<not> is_svg (d_url d) \<and> \<not> startswith (d_url d) ''data:'' \<and> d_url d \<noteq> []"
      by blast
    have "\<forall>d \<in> set new. idx \<le> d_index d \<and> d_index d < idx + length (img # rest) \<and>
          \<not> is_svg (d_url d) \<and> \<not> startswith (d_url d) ''data:'' \<and> d_url d \<noteq> []"
      using n(4) by auto
    with n(1,2,3) show ?thesis by auto
  next
    case True
    define d where "d = \<lparr> d_url = the v, d_alt = get_attr_default img ''alt'' [],
                            d_title = get_attr_default img ''title'' [],
                            d_width = Some (get_attr_default img ''width'' []),
                            d_height = Some (get_attr_default img ''height'' []),
                            d_caption = None, d_index = idx \<rparr>"
    have "scrape_images_loop uj url (idx + 1) rest (acc @ [d]) = Inr out"
      using Cons.prems ex True by (simp add: d_def)
    from Cons.IH [OF this] obtain new where
      n: "out = (acc @ [d]) @ new" "sorted_wrt (<) (map d_index new)" "length new \<le> length rest"
        "\<forall>x \<in> set new. idx + 1 \<le> d_index x \<and> d_index x < idx + 1 + length rest \<and>
          \<not> is_svg (d_url x) \<and> \<not> startswith (d_url x) ''data:'' \<and> d_url x \<noteq> []"
      by blast
    have dprops: "d_index d = idx" "\<not> is_svg (d_url d)" "\<not> startswith (d_url d) ''data:''"
        "d_url d \<noteq> []"
      using True by (auto simp: d_def truthy_def split: option.splits)
    have 1: "out = acc @ (d # new)" using n(1) by simp
    have 2: "sorted_wrt (<) (map d_index (d # new))"
      using n(2,4) dprops(1) by auto
    have 3: "length (d # new) \<le> length (img # rest)" using n(3) by simp
    have 4: "\<forall>x \<in> set (d # new). idx \<le> d_index x \<and> d_index x < idx + length (img # rest) \<and>
          \<not> is_svg (d_url x) \<and> \<not> startswith (d_url x) ''data:'' \<and> d_url x \<noteq> []"
      using n(4) dprops by auto
    show ?thesis using 1 2 3 4 by blast
  qed
qed

lemma scrape_images_invariants:
  assumes "scrape_images w t url a b = Inr found"
  shows "sorted_wrt (<) (map d_index found)"
    and "\<forall>d \<in> set found. \<not> is_svg (d_url d) \<and> \<not> startswith (d_url d) ''data:''"
proof -
  have "\<exists>sp :: soup. scrape_images_loop (urljoin w) url 1 (find_all_img sp) [] = Inr found"
    using assms by (auto simp: scrape_images_def split: sum.splits)
  then obtain sp :: soup
    where "scrape_images_loop (urljoin w) url 1 (find_all_img sp) [] = Inr found"
    by blast
  from scrape_images_loop_appends [OF this]
  show "sorted_wrt (<) (map d_index found)"
    and "\<forall>d \<in> set found. \<not> is_svg (d_url d) \<and> \<not> startswith (d_url d) ''data:''"
    by auto
qed

text \<open>
  The four branches of \<open>_extract_image_url\<close> on the source it picked: the outcome when
  the source starts with \<open>//\<close>, with \<open>/\<close>, with neither of them nor \<open>http\<close>, and with
  \<open>http\<close>.
\<close>

lemma extract_image_url_branches:
  assumes "pick_source img = Inr (Some u)" "u \<noteq> []"
  shows "startswith u ''//'' \<Longrightarrow> extract_image_url uj img base = Inr (Some (''https:'' @ u))"
    and "\<not> startswith u ''//'' \<Longrightarrow> startswith u ''/'' \<Longrightarrow>
           extract_image_url uj img base = Inr (Some (uj base u))"
    and "\<not> startswith u ''/'' \<Longrightarrow> \<not> startswith u ''http'' \<Longrightarrow>
           extract_image_url uj img base = Inr (Some (uj base u))"
    and "startswith u ''http'' \<Longrightarrow> extract_image_url uj img base = Inr (Some u)"
proof -
  have n2: "startswith u ''http'' \<Longrightarrow> \<not> startswith u ''/''"
    by (cases u) (auto simp: startswith_def)
  have n3: "startswith u ''//'' \<Longrightarrow> startswith u ''/''"
    by (cases u) (auto simp: startswith_def)
  show "startswith u ''//'' \<Longrightarrow> extract_image_url uj img base = Inr (Some (''https:'' @ u))"
    using assms by (simp add: extract_image_url_def resolve_url_def truthy_def)
  show "\<not> startswith u ''//'' \<Longrightarrow> startswith u ''/'' \<Longrightarrow>
           extract_image_url uj img base = Inr (Some (uj base u))"
    using assms by (simp add: extract_image_url_def resolve_url_def truthy_def)
  show "\<not> startswith u ''/'' \<Longrightarrow> \<not> startswith u ''http'' \<Longrightarrow>
           extract_image_url uj img base = Inr (Some (uj base u))"
    using assms n3 by (auto simp: extract_image_url_def resolve_url_def truthy_def)
  show "startswith u ''http'' \<Longrightarrow> extract_image_url uj img base = Inr (Some u)"
    using assms n2 n3 by (auto simp: extract_image_url_def resolve_url_def truthy_def)
qed

text \<open>
  C10. The list that \<open>scrape_images\<close> returns is the same for any two values of
  \<open>min_width\<close> and \<open>min_height\<close>: the function never reads them, so it filters nothing by
  dimension.
\<close>

theorem scrape_images_ignores_min_dimensions:
  "scrape_images w t url min_width min_height = scrape_images w t url min_width' min_height'"
  by (simp add: scrape_images_def)

text \<open>
  C7. The batch mode for local files does not return one record per path: for every
  list of paths \<open>caption_batch\<close>, and with it \<open>process_image_batch\<close>, raises
  UnboundLocalError before the first path is captioned, because its loop iterates over
  the unbound local \<open>image_path\<close> and not over the parameter \<open>image_paths\<close>. Shown for a
  batch of two paths and for every batch.
\<close>

theorem process_image_batch_raises:
  "process_image_batch w t [''cat.jpg'', ''dog.jpg''] prompt = Inl (UnboundLocalError ''image_path'')
   \<and> process_image_batch w t image_paths prompt = Inl (UnboundLocalError ''image_path'')
   \<and> caption_batch w default_prompt t image_paths prompt = Inl (UnboundLocalError ''image_path'')"
  by (simp add: process_image_batch_def caption_batch_def)

text \<open>
  C4. Not every emitted URL is absolute with the scheme http or https: the relative
  source \<open>http2-diagram.png\<close> starts with the letters \<open>http\<close>, so \<open>_extract_image_url\<close>
  takes it for an absolute URL and the scraper emits it unresolved.
\<close>

theorem scrape_images_emits_relative_url:
  "scrape_images (page_world [img_tag [(''src'', ''http2-diagram.png'')]] serve) t page_url mw mh
     = Inr [\<lparr> d_url = ''http2-diagram.png'', d_alt = [], d_title = [], d_width = Some [],
               d_height = Some [], d_caption = None, d_index = 1 \<rparr>]
   \<and> \<not> absolute_http ''http2-diagram.png''"
  unfolding page_world_scrape
  by (simp add: element_defs string_defs absolute_http_def)

text \<open>
  C8. A document-relative source is not always resolved against the base URL: for the
  source \<open>http2-diagram.png\<close> the function \<open>_extract_image_url\<close> returns the source as
  it is, for every base URL and every \<open>urljoin\<close>, where standard resolution against
  \<open>https://example.com/page\<close> gives \<open>https://example.com/http2-diagram.png\<close>.
\<close>

theorem extract_image_url_leaves_relative_url:
  "extract_image_url uj (img_tag [(''src'', ''http2-diagram.png'')]) base
     = Inr (Some ''http2-diagram.png'')
   \<and> std_urljoin page_url ''http2-diagram.png'' = ''https://example.com/http2-diagram.png''"
  by (simp add: element_defs string_defs urljoin_defs page_url_def)

section \<open>The per-item loop\<close>


text \<open>One iteration appends exactly one record, a result or a failure, with the loop's index.\<close>

lemma process_url_item_cases:
  assumes "process_url_item w ms p t idx d (rs, es) = ((rs', es'), t')"
  shows "(\<exists>r. rs' = rs @ [r] \<and> es' = es \<and> r_index r = idx \<and> r_image_url r = d_url d)
       \<or> (\<exists>e. rs' = rs \<and> es' = es @ [e] \<and> e_index e = idx \<and> e_url e = d_url d)"
  using assms
  by (auto simp: process_url_item_def split: sum.splits option.splits)

lemma process_article_item_cases:
  assumes "process_article_item w p t idx d (rs, es) = ((rs', es'), t')"
  shows "(\<exists>r. rs' = rs @ [r] \<and> es' = es \<and> r_index r = idx \<and> r_image_url r = d_url d)
       \<or> (\<exists>e. rs' = rs \<and> es' = es @ [e] \<and> e_index e = idx \<and> e_url e = d_url d)"
  using assms
  by (auto simp: process_article_item_def split: sum.splits option.splits)

text \<open>The loop only appends to the lists it is given.\<close>

lemma process_url_loop_append:
  "process_url_loop w ms p t idx ds (rs, es) =
     (rs @ fst (process_url_loop w ms p t idx ds ([], [])),
      es @ snd (process_url_loop w ms p t idx ds ([], [])))"
proof (induction ds arbitrary: t idx rs es)
  case Nil
  show ?case by simp
next
  case (Cons d ds)
  obtain rs1 es1 t1 where it: "process_url_item w ms p t idx d (rs, es) = ((rs1, es1), t1)"
    by (metis prod.exhaust)
  obtain rs0 es0 t0 where it0: "process_url_item w ms p t idx d ([], []) = ((rs0, es0), t0)"
    by (metis prod.exhaust)
  have rel: "rs1 = rs @ rs0 \<and> es1 = es @ es0 \<and> t1 = t0"
    using it it0
    by (auto simp: process_url_item_def split: sum.splits option.splits)
  show ?case
    using Cons.IH [of t0 "Suc idx" "rs @ rs0" "es @ es0"] Cons.IH [of t0 "Suc idx" rs0 es0]
      it it0 rel
    by simp
qed

lemma process_article_loop_append:
  "process_article_loop w p t idx ds (rs, es) =
     (rs @ fst (process_article_loop w p t idx ds ([], [])),
      es @ snd (process_article_loop w p t idx ds ([], [])))"
proof (induction ds arbitrary: t idx rs es)
  case Nil
  show ?case by simp
next
  case (Cons d ds)
  obtain rs1 es1 t1 where it: "process_article_item w p t idx d (rs, es) = ((rs1, es1), t1)"
    by (metis prod.exhaust)
  obtain rs0 es0 t0 where it0: "process_article_item w p t idx d ([], []) = ((rs0, es0), t0)"
    by (metis prod.exhaust)
  have rel: "rs1 = rs @ rs0 \<and> es1 = es @ es0 \<and> t1 = t0"
    using it it0
    by (auto simp: process_article_item_def split: sum.splits option.splits)
  show ?case
    using Cons.IH [of t0 "Suc idx" "rs @ rs0" "es @ es0"] Cons.IH [of t0 "Suc idx" rs0 es0]
      it it0 rel
    by simp
qed

text \<open>How \<open>tracks\<close> grows when the record of one more descriptor is put in front.\<close>

lemma tracks_Nil: "tracks idx [] [] []"
  by (simp add: tracks_def)

lemma tracks_bounds:
  assumes "tracks idx ds rs es"
  shows "\<forall>r \<in> set rs. idx \<le> r_index r \<and> r_index r < idx + length ds"
    and "\<forall>e \<in> set es. idx \<le> e_index e \<and> e_index e < idx + length ds"
proof -
  have u: "set (map r_index rs) \<union> set (map e_index es) = {idx ..< idx + length ds}"
    using assms by (simp add: tracks_def)
  show "\<forall>r \<in> set rs. idx \<le> r_index r \<and> r_index r < idx + length ds"
  proof
    fix r assume "r \<in> set rs"
    then have "r_index r \<in> set (map r_index rs) \<union> set (map e_index es)" by simp
    with u show "idx \<le> r_index r \<and> r_index r < idx + length ds" by simp
  qed
  show "\<forall>e \<in> set es. idx \<le> e_index e \<and> e_index e < idx + length ds"
  proof
    fix e assume "e \<in> set es"
    then have "e_index e \<in> set (map r_index rs) \<union> set (map e_index es)" by simp
    with u show "idx \<le> e_index e \<and> e_index e < idx + length ds" by simp
  qed
qed

lemma tracks_result_Cons:
  assumes tr: "tracks (Suc idx) ds rs es"
    and ri: "r_index r = idx" and ru: "r_image_url r = d_url d"
  shows "tracks idx (d # ds) (r # rs) es"
proof -
  have br: "\<forall>x \<in> set rs. Suc idx \<le> r_index x \<and> r_index x < Suc idx + length ds"
    and be: "\<forall>x \<in> set es. Suc idx \<le> e_index x \<and> e_index x < Suc idx + length ds"
    using tracks_bounds [OF tr] by auto
  have u: "set (map r_index rs) \<union> set (map e_index es) = {Suc idx ..< Suc idx + length ds}"
    using tr by (simp add: tracks_def)
  have 1: "length (r # rs) + length es = length (d # ds)"
    using tr by (simp add: tracks_def)
  have 2: "sorted_wrt (<) (map r_index (r # rs))"
    using tr br ri by (auto simp: tracks_def)
  have 3: "sorted_wrt (<) (map e_index es)"
    using tr by (simp add: tracks_def)
  have 4: "set (map r_index (r # rs)) \<inter> set (map e_index es) = {}"
    using tr be ri by (auto simp: tracks_def)
  have "set (map r_index (r # rs)) \<union> set (map e_index es)
          = insert idx (set (map r_index rs) \<union> set (map e_index es))"
    using ri by auto
  also have "\<dots> = insert idx {Suc idx ..< Suc idx + length ds}"
    using u by simp
  also have "\<dots> = {idx ..< idx + length (d # ds)}"
    by auto
  finally have 5: "set (map r_index (r # rs)) \<union> set (map e_index es)
                     = {idx ..< idx + length (d # ds)}" .
  have 6: "\<forall>x \<in> set (r # rs). r_image_url x = d_url ((d # ds) ! (r_index x - idx))"
  proof
    fix x assume "x \<in> set (r # rs)"
    then consider "x = r" | "x \<in> set rs" by auto
    then show "r_image_url x = d_url ((d # ds) ! (r_index x - idx))"
    proof cases
      case 1
      then show ?thesis using ri ru by simp
    next
      case 2
      then have "Suc idx \<le> r_index x" using br by simp
      then have "r_index x - idx = Suc (r_index x - Suc idx)" by simp
      moreover have "r_image_url x = d_url (ds ! (r_index x - Suc idx))"
        using tr 2 by (simp add: tracks_def)
      ultimately show ?thesis by simp
    qed
  qed
  have 7: "\<forall>x \<in> set es. e_url x = d_url ((d # ds) ! (e_index x - idx))"
  proof
    fix x assume xe: "x \<in> set es"
    then have "Suc idx \<le> e_index x" using be by simp
    then have "e_index x - idx = Suc (e_index x - Suc idx)" by simp
    moreover have "e_url x = d_url (ds ! (e_index x - Suc idx))"
      using tr xe by (simp add: tracks_def)
    ultimately show "e_url x = d_url ((d # ds) ! (e_index x - idx))" by simp
  qed
  show ?thesis
    unfolding tracks_def using 1 2 3 4 5 6 7 by blast
qed

lemma tracks_failure_Cons:
  assumes tr: "tracks (Suc idx) ds rs es"
    and ei: "e_index e = idx" and eu: "e_url e = d_url d"
  shows "tracks idx (d # ds) rs (e # es)"
proof -
  have br: "\<forall>x \<in> set rs. Suc idx \<le> r_index x \<and> r_index x < Suc idx + length ds"
    and be: "\<forall>x \<in> set es. Suc idx \<le> e_index x \<and> e_index x < Suc idx + length ds"
    using tracks_bounds [OF tr] by auto
  have u: "set (map r_index rs) \<union> set (map e_index es) = {Suc idx ..< Suc idx + length ds}"
    using tr by (simp add: tracks_def)
  have 1: "length rs + length (e # es) = length (d # ds)"
    using tr by (simp add: tracks_def)
  have 2: "sorted_wrt (<) (map r_index rs)"
    using tr by (simp add: tracks_def)
  have 3: "sorted_wrt (<) (map e_index (e # es))"
    using tr be ei by (auto simp: tracks_def)
  have 4: "set (map r_index rs) \<inter> set (map e_index (e # es)) = {}"
    using tr br ei by (auto simp: tracks_def)
  have "set (map r_index rs) \<union> set (map e_index (e # es))
          = insert idx (set (map r_index rs) \<union> set (map e_index es))"
    using ei by auto
  also have "\<dots> = insert idx {Suc idx ..< Suc idx + length ds}"
    using u by simp
  also have "\<dots> = {idx ..< idx + length (d # ds)}"
    by auto
  finally have 5: "set (map r_index rs) \<union> set (map e_index (e # es))
                     = {idx ..< idx + length (d # ds)}" .
  have 6: "\<forall>x \<in> set rs. r_image_url x = d_url ((d # ds) ! (r_index x - idx))"
  proof
    fix x assume xr: "x \<in> set rs"
    then have "Suc idx \<le> r_index x" using br by simp
    then have "r_index x - idx = Suc (r_index x - Suc idx)" by simp
    moreover have "r_image_url x = d_url (ds ! (r_index x - Suc idx))"
      using tr xr by (simp add: tracks_def)
    ultimately show "r_image_url x = d_url ((d # ds) ! (r_index x - idx))" by simp
  qed
  have 7: "\<forall>x \<in> set (e # es). e_url x = d_url ((d # ds) ! (e_index x - idx))"
  proof
    fix x assume "x \<in> set (e # es)"
    then consider "x = e" | "x \<in> set es" by auto
    then show "e_url x = d_url ((d # ds) ! (e_index x - idx))"
    proof cases
      case 1
      then show ?thesis using ei eu by simp
    next
      case 2
      then have "Suc idx \<le> e_index x" using be by simp
      then have "e_index x - idx = Suc (e_index x - Suc idx)" by simp
      moreover have "e_url x = d_url (ds ! (e_index x - Suc idx))"
        using tr 2 by (simp add: tracks_def)
      ultimately show ?thesis by simp
    qed
  qed
  show ?thesis
    unfolding tracks_def using 1 2 3 4 5 6 7 by blast
qed

text \<open>Both loops, started on empty lists, account for every descriptor they are given.\<close>

lemma process_url_loop_tracks:
  "process_url_loop w ms p t idx ds ([], []) = (rs, es) \<Longrightarrow> tracks idx ds rs es"
proof (induction ds arbitrary: t idx rs es)
  case Nil
  then show ?case by (simp add: tracks_Nil)
next
  case (Cons d ds)
  obtain rs0 es0 t0 where it0: "process_url_item w ms p t idx d ([], []) = ((rs0, es0), t0)"
    by (metis prod.exhaust)
  obtain rs2 es2 where l2: "process_url_loop w ms p t0 (Suc idx) ds ([], []) = (rs2, es2)"
    by (metis prod.exhaust)
  have tr2: "tracks (Suc idx) ds rs2 es2"
    using Cons.IH [OF l2] .
  have whole: "rs = rs0 @ rs2 \<and> es = es0 @ es2"
    using Cons.prems it0 l2 process_url_loop_append [of w ms p t0 "Suc idx" ds rs0 es0]
    by simp
  from process_url_item_cases [OF it0]
  show ?case
  proof (elim disjE exE conjE)
    fix r
    assume "rs0 = [] @ [r]" "es0 = []" "r_index r = idx" "r_image_url r = d_url d"
    then show ?thesis
      using whole tracks_result_Cons [OF tr2, of r d] by simp
  next
    fix e
    assume "rs0 = []" "es0 = [] @ [e]" "e_index e = idx" "e_url e = d_url d"
    then show ?thesis
      using whole tracks_failure_Cons [OF tr2, of e d] by simp
  qed
qed

lemma process_article_loop_tracks:
  "process_article_loop w p t idx ds ([], []) = (rs, es) \<Longrightarrow> tracks idx ds rs es"
proof (induction ds arbitrary: t idx rs es)
  case Nil
  then show ?case by (simp add: tracks_Nil)
next
  case (Cons d ds)
  obtain rs0 es0 t0 where it0: "process_article_item w p t idx d ([], []) = ((rs0, es0), t0)"
    by (metis prod.exhaust)
  obtain rs2 es2 where l2: "process_article_loop w p t0 (Suc idx) ds ([], []) = (rs2, es2)"
    by (metis prod.exhaust)
  have tr2: "tracks (Suc idx) ds rs2 es2"
    using Cons.IH [OF l2] .
  have whole: "rs = rs0 @ rs2 \<and> es = es0 @ es2"
    using Cons.prems it0 l2 process_article_loop_append [of w p t0 "Suc idx" ds rs0 es0]
    by simp
  from process_article_item_cases [OF it0]
  show ?case
  proof (elim disjE exE conjE)
    fix r
    assume "rs0 = [] @ [r]" "es0 = []" "r_index r = idx" "r_image_url r = d_url d"
    then show ?thesis
      using whole tracks_result_Cons [OF tr2, of r d] by simp
  next
    fix e
    assume "rs0 = []" "es0 = [] @ [e]" "e_index e = idx" "e_url e = d_url d"
    then show ?thesis
      using whole tracks_failure_Cons [OF tr2, of e d] by simp
  qed
qed

text \<open>The loop never reads the index that the scraper stamped on a descriptor.\<close>

lemma process_url_item_ignores_d_index:
  "process_url_item w ms p t idx (d\<lparr>d_index := k\<rparr>) acc = process_url_item w ms p t idx d acc"
  by (simp add: process_url_item_def split: sum.splits option.splits)

lemma process_url_loop_ignores_d_index:
  "process_url_loop w ms p t idx (map (\<lambda>d. d\<lparr>d_index := f d\<rparr>) ds) acc
     = process_url_loop w ms p t idx ds acc"
  by (induction ds arbitrary: t idx acc) (simp_all add: process_url_item_ignores_d_index)

lemma process_article_item_ignores_d_index:
  "process_article_item w p t idx (d\<lparr>d_index := k\<rparr>) acc = process_article_item w p t idx d acc"
  by (simp add: process_article_item_def split: sum.splits option.splits)

lemma process_article_loop_ignores_d_index:
  "process_article_loop w p t idx (map (\<lambda>d. d\<lparr>d_index := f d\<rparr>) ds) acc
     = process_article_loop w p t idx ds acc"
  by (induction ds arbitrary: t idx acc) (simp_all add: process_article_item_ignores_d_index)

text \<open>\<open>process_url\<close> returns a summary exactly when the scrape returns a list.\<close>

lemma process_url_Inr:
  assumes "process_url w ms t url p mx = Inr s"
  obtains title found where
    "get_page_title w t url = Inr title"
    "scrape_images w (t + 1) url 200 200 = Inr found"
    "s = \<lparr> s_url = url, s_title = title,
           total_images_found = length (cap_images mx found),
           images_processed = length (fst (process_url_loop w ms p (t + 2) 1 (cap_images mx found) ([], []))),
           images_failed = length (snd (process_url_loop w ms p (t + 2) 1 (cap_images mx found) ([], []))),
           results = fst (process_url_loop w ms p (t + 2) 1 (cap_images mx found) ([], [])),
           errors = snd (process_url_loop w ms p (t + 2) 1 (cap_images mx found) ([], [])) \<rparr>"
  using assms
  by (auto simp: process_url_def Let_def split: sum.splits)

lemma process_article_Inr:
  assumes "process_article w t url p = Inr s"
  obtains title found where
    "get_page_title w t url = Inr title"
    "scrape_article_images w (t + 1) url None = Inr found"
    "s = \<lparr> s_url = url, s_title = title,
           total_images_found = length found,
           images_processed = length (fst (process_article_loop w p (t + 2) 1 found ([], []))),
           images_failed = length (snd (process_article_loop w p (t + 2) 1 found ([], []))),
           results = fst (process_article_loop w p (t + 2) 1 found ([], [])),
           errors = snd (process_article_loop w p (t + 2) 1 found ([], [])) \<rparr>"
  using assms
  by (auto simp: process_article_def Let_def split: sum.splits)

lemma process_url_tracks:
  assumes "process_url w ms t url p mx = Inr s"
  shows "\<exists>found. scrape_images w (t + 1) url 200 200 = Inr found \<and>
           total_images_found s = length (cap_images mx found) \<and>
           images_processed s = length (results s) \<and>
           images_failed s = length (errors s) \<and>
           tracks 1 (cap_images mx found) (results s) (errors s)"
proof -
  from assms obtain title found where
    sc: "scrape_images w (t + 1) url 200 200 = Inr found" and
    s: "s = \<lparr> s_url = url, s_title = title,
           total_images_found = length (cap_images mx found),
           images_processed = length (fst (process_url_loop w ms p (t + 2) 1 (cap_images mx found) ([], []))),
           images_failed = length (snd (process_url_loop w ms p (t + 2) 1 (cap_images mx found) ([], []))),
           results = fst (process_url_loop w ms p (t + 2) 1 (cap_images mx found) ([], [])),
           errors = snd (process_url_loop w ms p (t + 2) 1 (cap_images mx found) ([], [])) \<rparr>"
    by (rule process_url_Inr)
  have "tracks 1 (cap_images mx found) (results s) (errors s)"
    by (rule process_url_loop_tracks [of w ms p "t + 2"]) (simp add: s)
  then show ?thesis using sc s by simp
qed

lemma process_article_tracks:
  assumes "process_article w t url p = Inr s"
  shows "\<exists>found. scrape_article_images w (t + 1) url None = Inr found \<and>
           total_images_found s = length found \<and>
           images_processed s = length (results s) \<and>
           images_failed s = length (errors s) \<and>
           tracks 1 found (results s) (errors s)"
proof -
  from assms obtain title found where
    sc: "scrape_article_images w (t + 1) url None = Inr found" and
    s: "s = \<lparr> s_url = url, s_title = title,
           total_images_found = length found,
           images_processed = length (fst (process_article_loop w p (t + 2) 1 found ([], []))),
           images_failed = length (snd (process_article_loop w p (t + 2) 1 found ([], []))),
           results = fst (process_article_loop w p (t + 2) 1 found ([], [])),
           errors = snd (process_article_loop w p (t + 2) 1 found ([], [])) \<rparr>"
    by (rule process_article_Inr)
  have "tracks 1 found (results s) (errors s)"
    by (rule process_article_loop_tracks [of w p "t + 2"]) (simp add: s)
  then show ?thesis using sc s by simp
qed

section \<open>Runs of the concrete pages\<close>

lemma cat_and_missing_scrape:
  "scrape_images cat_and_missing t page_url a b
     = Inr [\<lparr> d_url = ''https://example.com/cat.jpg'', d_alt = ''Cat'', d_title = ''My cat'',
               d_width = Some [], d_height = Some [], d_caption = None, d_index = 1 \<rparr>,
            \<lparr> d_url = ''https://example.com/missing.png'', d_alt = [], d_title = [],
               d_width = Some [], d_height = Some [], d_caption = None, d_index = 2 \<rparr>]"
  unfolding cat_and_missing_def page_world_scrape
  by (simp add: element_defs string_defs urljoin_defs page_url_def)

lemma cat_and_missing_scrape_article:
  "scrape_article_images cat_and_missing t page_url None
     = Inr [\<lparr> d_url = ''https://example.com/cat.jpg'', d_alt = ''Cat'', d_title = ''My cat'',
               d_width = None, d_height = None, d_caption = Some [], d_index = 1 \<rparr>,
            \<lparr> d_url = ''https://example.com/missing.png'', d_alt = [], d_title = [],
               d_width = None, d_height = None, d_caption = Some [], d_index = 2 \<rparr>]"
  unfolding cat_and_missing_def page_world_scrape_article
  by (simp add: element_defs string_defs urljoin_defs page_url_def extract_caption_def)

lemma cat_and_missing_downloads:
  "download_image cat_and_missing t ''https://example.com/cat.jpg'' 200
     = Inr (Some \<lparr> width = 300, height = 300, mode = ''RGB'' \<rparr>)"
  "download_image cat_and_missing t ''https://example.com/missing.png'' 200 = Inr None"
proof -
  show "download_image cat_and_missing t ''https://example.com/cat.jpg'' 200
     = Inr (Some \<lparr> width = 300, height = 300, mode = ''RGB'' \<rparr>)"
    unfolding cat_and_missing_def
    by (rule page_world_download_photo) (simp_all add: page_url_def cat_serve_def hosted_def)
  show "download_image cat_and_missing t ''https://example.com/missing.png'' 200 = Inr None"
    unfolding cat_and_missing_def
    by (rule page_world_download_none) (simp_all add: page_url_def cat_serve_def hosted_def)
qed

lemma cat_and_missing_run:
  "process_url cat_and_missing 200 0 page_url None None =
     Inr \<lparr> s_url = page_url, s_title = ''Page'', total_images_found = 2,
           images_processed = 1, images_failed = 1,
           results = [\<lparr> r_image_url = ''https://example.com/cat.jpg'', r_caption = ''a picture'',
                        r_alt = ''Cat'', r_title = Some ''My cat'', r_original_caption = None,
                        r_width = 300, r_height = 300, r_index = 1 \<rparr>],
           errors = [\<lparr> e_index = 2, e_url = ''https://example.com/missing.png'',
                       e_error = ''Download failed or image too small'' \<rparr>] \<rparr>"
proof -
  have ti: "get_page_title cat_and_missing t page_url = Inr ''Page''" for t
    unfolding cat_and_missing_def by (rule page_world_title)
  have ca: "generate_caption cat_and_missing t img p = Inr ''a picture''" for t img p
    unfolding cat_and_missing_def by (rule page_world_caption)
  show ?thesis
    by (simp add: process_url_def ti cat_and_missing_scrape cap_images_def
        process_url_item_def cat_and_missing_downloads ca)
qed

lemma cat_and_missing_run_article:
  "process_article cat_and_missing 0 page_url None =
     Inr \<lparr> s_url = page_url, s_title = ''Page'', total_images_found = 2,
           images_processed = 1, images_failed = 1,
           results = [\<lparr> r_image_url = ''https://example.com/cat.jpg'', r_caption = ''a picture'',
                        r_alt = ''Cat'', r_title = None, r_original_caption = Some [],
                        r_width = 300, r_height = 300, r_index = 1 \<rparr>],
           errors = [\<lparr> e_index = 2, e_url = ''https://example.com/missing.png'',
                       e_error = ''Download failed'' \<rparr>] \<rparr>"
proof -
  have ti: "get_page_title cat_and_missing t page_url = Inr ''Page''" for t
    unfolding cat_and_missing_def by (rule page_world_title)
  have ca: "generate_caption cat_and_missing t img p = Inr ''a picture''" for t img p
    unfolding cat_and_missing_def by (rule page_world_caption)
  show ?thesis
    by (simp add: process_article_def ti cat_and_missing_scrape_article default_min_size_def
        process_article_item_def cat_and_missing_downloads ca)
qed

lemma five_photos_scrape:
  "scrape_images five_photos t page_url a b
     = Inr [\<lparr> d_url = ''https://example.com/1.jpg'', d_alt = [], d_title = [],
               d_width = Some [], d_height = Some [], d_caption = None, d_index = 1 \<rparr>,
            \<lparr> d_url = ''https://example.com/2.jpg'', d_alt = [], d_title = [],
               d_width = Some [], d_height = Some [], d_caption = None, d_index = 2 \<rparr>,
            \<lparr> d_url = ''https://example.com/3.jpg'', d_alt = [], d_title = [],
               d_width = Some [], d_height = Some [], d_caption = None, d_index = 3 \<rparr>,
            \<lparr> d_url = ''https://example.com/4.jpg'', d_alt = [], d_title = [],
               d_width = Some [], d_height = Some [], d_caption = None, d_index = 4 \<rparr>,
            \<lparr> d_url = ''https://example.com/5.jpg'', d_alt = [], d_title = [],
               d_width = Some [], d_height = Some [], d_caption = None, d_index = 5 \<rparr>]"
  unfolding five_photos_def page_world_scrape
  by (simp add: element_defs string_defs urljoin_defs page_url_def)

section \<open>The summary\<close>

text \<open>
  C2, as the claim states it, fails. The records do not partition the capped
  descriptors by index: on a page whose first \<open>img\<close> is an SVG logo and whose second is
  a photograph, the only capped descriptor has the sequence index 2, and the only record
  of the summary has the index 1, so the indexes of the records are not the indexes of
  the capped descriptors.
\<close>

theorem record_indexes_are_not_descriptor_indexes:
  "cap_images None
     [\<lparr> d_url = ''https://example.com/cat.jpg'', d_alt = ''Cat'', d_title = [],
         d_width = Some [], d_height = Some [], d_caption = None, d_index = 2 \<rparr>]
     = [\<lparr> d_url = ''https://example.com/cat.jpg'', d_alt = ''Cat'', d_title = [],
           d_width = Some [], d_height = Some [], d_caption = None, d_index = 2 \<rparr>]
   \<and> scrape_images logo_then_photo (0 + 1) page_url 200 200
     = Inr [\<lparr> d_url = ''https://example.com/cat.jpg'', d_alt = ''Cat'', d_title = [],
               d_width = Some [], d_height = Some [], d_caption = None, d_index = 2 \<rparr>]
   \<and> process_url logo_then_photo 200 0 page_url None None =
     Inr \<lparr> s_url = page_url, s_title = ''Page'', total_images_found = 1,
           images_processed = 1, images_failed = 0,
           results = [\<lparr> r_image_url = ''https://example.com/cat.jpg'', r_caption = ''a picture'',
                        r_alt = ''Cat'', r_title = Some [], r_original_caption = None,
                        r_width = 300, r_height = 300, r_index = 1 \<rparr>],
           errors = [] \<rparr>
   \<and> set (map r_index
            [\<lparr> r_image_url = ''https://example.com/cat.jpg'', r_caption = ''a picture'',
                r_alt = ''Cat'', r_title = Some [], r_original_caption = None,
                r_width = 300, r_height = 300, r_index = 1 \<rparr>])
         \<union> set (map e_index [])
       \<noteq> set (map d_index
                [\<lparr> d_url = ''https://example.com/cat.jpg'', d_alt = ''Cat'', d_title = [],
                    d_width = Some [], d_height = Some [], d_caption = None, d_index = 2 \<rparr>])"
  using logo_then_photo_scrape [of "0 + 1" 200 200] logo_then_photo_run
  by (simp add: cap_images_def)

text \<open>
  C2, amended. A run that completes returns a summary in which \<open>images_processed\<close>
  plus \<open>images_failed\<close> is \<open>total_images_found\<close>, the length of the descriptor list
  after the cap. The index of a record is the position, counted from 1, of its descriptor
  in the capped list, not the descriptor's sequence index: the indexes of \<open>results\<close> and
  of \<open>errors\<close> ascend, no index is in both, and together they are exactly the positions
  1 to \<open>total_images_found\<close>, each record carrying the URL of the descriptor at its
  position. So by position the records partition the capped list: one record for every
  capped descriptor, none twice and none left out. Whole-page mode and article mode.
\<close>

theorem summary_partitions_capped_descriptors:
  "(process_url w ms t url prompt max_images = Inr s \<longrightarrow>
      (\<exists>found. scrape_images w (t + 1) url 200 200 = Inr found \<and>
         total_images_found s = length (cap_images max_images found) \<and>
         images_processed s + images_failed s = total_images_found s \<and>
         images_processed s = length (results s) \<and>
         images_failed s = length (errors s) \<and>
         tracks 1 (cap_images max_images found) (results s) (errors s)))
   \<and> (process_article w t url prompt = Inr s \<longrightarrow>
      (\<exists>found. scrape_article_images w (t + 1) url None = Inr found \<and>
         total_images_found s = length found \<and>
         images_processed s + images_failed s = total_images_found s \<and>
         images_processed s = length (results s) \<and>
         images_failed s = length (errors s) \<and>
         tracks 1 found (results s) (errors s)))"
proof (intro conjI impI)
  assume "process_url w ms t url prompt max_images = Inr s"
  from process_url_tracks [OF this] obtain found where
    f: "scrape_images w (t + 1) url 200 200 = Inr found"
      "total_images_found s = length (cap_images max_images found)"
      "images_processed s = length (results s)"
      "images_failed s = length (errors s)"
      "tracks 1 (cap_images max_images found) (results s) (errors s)"
    by blast
  have "images_processed s + images_failed s = total_images_found s"
    using f(2,3,4,5) by (simp add: tracks_def)
  with f show "\<exists>found. scrape_images w (t + 1) url 200 200 = Inr found \<and>
         total_images_found s = length (cap_images max_images found) \<and>
         images_processed s + images_failed s = total_images_found s \<and>
         images_processed s = length (results s) \<and>
         images_failed s = length (errors s) \<and>
         tracks 1 (cap_images max_images found) (results s) (errors s)"
    by blast
next
  assume "process_article w t url prompt = Inr s"
  from process_article_tracks [OF this] obtain found where
    f: "scrape_article_images w (t + 1) url None = Inr found"
      "total_images_found s = length found"
      "images_processed s = length (results s)"
      "images_failed s = length (errors s)"
      "tracks 1 found (results s) (errors s)"
    by blast
  have "images_processed s + images_failed s = total_images_found s"
    using f(2,3,4,5) by (simp add: tracks_def)
  with f show "\<exists>found. scrape_article_images w (t + 1) url None = Inr found \<and>
         total_images_found s = length found \<and>
         images_processed s + images_failed s = total_images_found s \<and>
         images_processed s = length (results s) \<and>
         images_failed s = length (errors s) \<and>
         tracks 1 found (results s) (errors s)"
    by blast
qed

theorem summary_partitions_capped_descriptors_witness:
  "process_url cat_and_missing 200 0 page_url None None =
     Inr \<lparr> s_url = page_url, s_title = ''Page'', total_images_found = 2,
           images_processed = 1, images_failed = 1,
           results = [\<lparr> r_image_url = ''https://example.com/cat.jpg'', r_caption = ''a picture'',
                        r_alt = ''Cat'', r_title = Some ''My cat'', r_original_caption = None,
                        r_width = 300, r_height = 300, r_index = 1 \<rparr>],
           errors = [\<lparr> e_index = 2, e_url = ''https://example.com/missing.png'',
                       e_error = ''Download failed or image too small'' \<rparr>] \<rparr>
   \<and> tracks 1
        [\<lparr> d_url = ''https://example.com/cat.jpg'', d_alt = ''Cat'', d_title = ''My cat'',
            d_width = Some [], d_height = Some [], d_caption = None, d_index = 1 \<rparr>,
         \<lparr> d_url = ''https://example.com/missing.png'', d_alt = [], d_title = [],
            d_width = Some [], d_height = Some [], d_caption = None, d_index = 2 \<rparr>]
        [\<lparr> r_image_url = ''https://example.com/cat.jpg'', r_caption = ''a picture'',
            r_alt = ''Cat'', r_title = Some ''My cat'', r_original_caption = None,
            r_width = 300, r_height = 300, r_index = 1 \<rparr>]
        [\<lparr> e_index = 2, e_url = ''https://example.com/missing.png'',
            e_error = ''Download failed or image too small'' \<rparr>]
   \<and> process_article cat_and_missing 0 page_url None =
     Inr \<lparr> s_url = page_url, s_title = ''Page'', total_images_found = 2,
           images_processed = 1, images_failed = 1,
           results = [\<lparr> r_image_url = ''https://example.com/cat.jpg'', r_caption = ''a picture'',
                        r_alt = ''Cat'', r_title = None, r_original_caption = Some [],
                        r_width = 300, r_height = 300, r_index = 1 \<rparr>],
           errors = [\<lparr> e_index = 2, e_url = ''https://example.com/missing.png'',
                       e_error = ''Download failed'' \<rparr>] \<rparr>
   \<and> tracks 1
        [\<lparr> d_url = ''https://example.com/cat.jpg'', d_alt = ''Cat'', d_title = ''My cat'',
            d_width = None, d_height = None, d_caption = Some [], d_index = 1 \<rparr>,
         \<lparr> d_url = ''https://example.com/missing.png'', d_alt = [], d_title = [],
            d_width = None, d_height = None, d_caption = Some [], d_index = 2 \<rparr>]
        [\<lparr> r_image_url = ''https://example.com/cat.jpg'', r_caption = ''a picture'',
            r_alt = ''Cat'', r_title = None, r_original_caption = Some [],
            r_width = 300, r_height = 300, r_index = 1 \<rparr>]
        [\<lparr> e_index = 2, e_url = ''https://example.com/missing.png'',
            e_error = ''Download failed'' \<rparr>]"
proof -
  have u: "tracks 1
        [\<lparr> d_url = ''https://example.com/cat.jpg'', d_alt = ''Cat'', d_title = ''My cat'',
            d_width = Some [], d_height = Some [], d_caption = None, d_index = 1 \<rparr>,
         \<lparr> d_url = ''https://example.com/missing.png'', d_alt = [], d_title = [],
            d_width = Some [], d_height = Some [], d_caption = None, d_index = 2 \<rparr>]
        [\<lparr> r_image_url = ''https://example.com/cat.jpg'', r_caption = ''a picture'',
            r_alt = ''Cat'', r_title = Some ''My cat'', r_original_caption = None,
            r_width = 300, r_height = 300, r_index = 1 \<rparr>]
        [\<lparr> e_index = 2, e_url = ''https://example.com/missing.png'',
            e_error = ''Download failed or image too small'' \<rparr>]"
    using summary_partitions_capped_descriptors
            [THEN conjunct1, THEN mp, OF cat_and_missing_run]
    by (simp add: cat_and_missing_scrape cap_images_def)
  have a: "tracks 1
        [\<lparr> d_url = ''https://example.com/cat.jpg'', d_alt = ''Cat'', d_title = ''My cat'',
            d_width = None, d_height = None, d_caption = Some [], d_index = 1 \<rparr>,
         \<lparr> d_url = ''https://example.com/missing.png'', d_alt = [], d_title = [],
            d_width = None, d_height = None, d_caption = Some [], d_index = 2 \<rparr>]
        [\<lparr> r_image_url = ''https://example.com/cat.jpg'', r_caption = ''a picture'',
            r_alt = ''Cat'', r_title = None, r_original_caption = Some [],
            r_width = 300, r_height = 300, r_index = 1 \<rparr>]
        [\<lparr> e_index = 2, e_url = ''https://example.com/missing.png'',
            e_error = ''Download failed'' \<rparr>]"
    using summary_partitions_capped_descriptors
            [THEN conjunct2, THEN mp, OF cat_and_missing_run_article]
    by (simp add: cat_and_missing_scrape_article)
  show ?thesis
    using u a cat_and_missing_run cat_and_missing_run_article by simp
qed

lemma get_page_title_returns: "\<exists>title. get_page_title w t url = Inr title"
  by (simp add: get_page_title_def split: sum.splits)

text \<open>
  C1, as the claim states it, fails. On a page whose first \<open>img\<close> is an SVG logo and
  whose second is a photograph, the scraper stamps the photograph with index 2 (its
  position among all \<open>img\<close> elements), and the record of the photograph in the summary
  has index 1.
\<close>

theorem record_index_differs_from_sequence_index:
  "scrape_images logo_then_photo 1 page_url 200 200
     = Inr [\<lparr> d_url = ''https://example.com/cat.jpg'', d_alt = ''Cat'', d_title = [],
               d_width = Some [], d_height = Some [], d_caption = None, d_index = 2 \<rparr>]
   \<and> process_url logo_then_photo 200 0 page_url None None =
     Inr \<lparr> s_url = page_url, s_title = ''Page'', total_images_found = 1,
           images_processed = 1, images_failed = 0,
           results = [\<lparr> r_image_url = ''https://example.com/cat.jpg'', r_caption = ''a picture'',
                        r_alt = ''Cat'', r_title = Some [], r_original_caption = None,
                        r_width = 300, r_height = 300, r_index = 1 \<rparr>],
           errors = [] \<rparr>"
  using logo_then_photo_scrape [of 1 200 200] logo_then_photo_run by simp

text \<open>
  C1, amended. The index stored in each result and in each failure of a run is the
  position, counted from 1, of its descriptor in the descriptor list that the loop is
  given (the scraped list, capped in whole-page mode), and the record carries that
  descriptor's URL. The index that the scraper stamped on the descriptor is not read:
  the records are the same whatever those indexes are. So a failed download or caption
  never renumbers the items after it, and an element that the scraper skipped or filtered
  does. Whole-page mode and article mode.
\<close>

theorem record_index_is_position_in_capped_list:
  "(process_url w ms t url prompt max_images = Inr s \<longrightarrow>
      (\<exists>found. scrape_images w (t + 1) url 200 200 = Inr found \<and>
         (\<forall>r \<in> set (results s).
            1 \<le> r_index r \<and> r_index r \<le> length (cap_images max_images found) \<and>
            r_image_url r = d_url (cap_images max_images found ! (r_index r - 1))) \<and>
         (\<forall>e \<in> set (errors s).
            1 \<le> e_index e \<and> e_index e \<le> length (cap_images max_images found) \<and>
            e_url e = d_url (cap_images max_images found ! (e_index e - 1))) \<and>
         (\<forall>f. process_url_loop w ms prompt (t + 2) 1
                 (map (\<lambda>d. d\<lparr>d_index := f d\<rparr>) (cap_images max_images found)) ([], [])
               = (results s, errors s))))
   \<and> (process_article w t url prompt = Inr s \<longrightarrow>
      (\<exists>found. scrape_article_images w (t + 1) url None = Inr found \<and>
         (\<forall>r \<in> set (results s).
            1 \<le> r_index r \<and> r_index r \<le> length found \<and>
            r_image_url r = d_url (found ! (r_index r - 1))) \<and>
         (\<forall>e \<in> set (errors s).
            1 \<le> e_index e \<and> e_index e \<le> length found \<and>
            e_url e = d_url (found ! (e_index e - 1))) \<and>
         (\<forall>f. process_article_loop w prompt (t + 2) 1
                 (map (\<lambda>d. d\<lparr>d_index := f d\<rparr>) found) ([], [])
               = (results s, errors s))))"
proof (intro conjI impI)
  assume "process_url w ms t url prompt max_images = Inr s"
  then obtain title found where
    sc: "scrape_images w (t + 1) url 200 200 = Inr found" and
    s: "s = \<lparr> s_url = url, s_title = title,
           total_images_found = length (cap_images max_images found),
           images_processed = length (fst (process_url_loop w ms prompt (t + 2) 1 (cap_images max_images found) ([], []))),
           images_failed = length (snd (process_url_loop w ms prompt (t + 2) 1 (cap_images max_images found) ([], []))),
           results = fst (process_url_loop w ms prompt (t + 2) 1 (cap_images max_images found) ([], [])),
           errors = snd (process_url_loop w ms prompt (t + 2) 1 (cap_images max_images found) ([], [])) \<rparr>"
    by (rule process_url_Inr)
  have lp: "process_url_loop w ms prompt (t + 2) 1 (cap_images max_images found) ([], [])
              = (results s, errors s)"
    by (simp add: s)
  have tr: "tracks 1 (cap_images max_images found) (results s) (errors s)"
    using process_url_loop_tracks [OF lp] .
  have r: "\<forall>r \<in> set (results s).
              1 \<le> r_index r \<and> r_index r \<le> length (cap_images max_images found) \<and>
              r_image_url r = d_url (cap_images max_images found ! (r_index r - 1))"
    using tracks_bounds(1) [OF tr] tr by (auto simp: tracks_def)
  have e: "\<forall>e \<in> set (errors s).
              1 \<le> e_index e \<and> e_index e \<le> length (cap_images max_images found) \<and>
              e_url e = d_url (cap_images max_images found ! (e_index e - 1))"
    using tracks_bounds(2) [OF tr] tr by (auto simp: tracks_def)
  have i: "\<forall>f. process_url_loop w ms prompt (t + 2) 1
                   (map (\<lambda>d. d\<lparr>d_index := f d\<rparr>) (cap_images max_images found)) ([], [])
                 = (results s, errors s)"
    using lp by (simp add: process_url_loop_ignores_d_index)
  show "\<exists>found. scrape_images w (t + 1) url 200 200 = Inr found \<and>
         (\<forall>r \<in> set (results s).
            1 \<le> r_index r \<and> r_index r \<le> length (cap_images max_images found) \<and>
            r_image_url r = d_url (cap_images max_images found ! (r_index r - 1))) \<and>
         (\<forall>e \<in> set (errors s).
            1 \<le> e_index e \<and> e_index e \<le> length (cap_images max_images found) \<and>
            e_url e = d_url (cap_images max_images found ! (e_index e - 1))) \<and>
         (\<forall>f. process_url_loop w ms prompt (t + 2) 1
                 (map (\<lambda>d. d\<lparr>d_index := f d\<rparr>) (cap_images max_images found)) ([], [])
               = (results s, errors s))"
    using sc r e i by blast
next
  assume "process_article w t url prompt = Inr s"
  then obtain title found where
    sc: "scrape_article_images w (t + 1) url None = Inr found" and
    s: "s = \<lparr> s_url = url, s_title = title,
           total_images_found = length found,
           images_processed = length (fst (process_article_loop w prompt (t + 2) 1 found ([], []))),
           images_failed = length (snd (process_article_loop w prompt (t + 2) 1 found ([], []))),
           results = fst (process_article_loop w prompt (t + 2) 1 found ([], [])),
           errors = snd (process_article_loop w prompt (t + 2) 1 found ([], [])) \<rparr>"
    by (rule process_article_Inr)
  have lp: "process_article_loop w prompt (t + 2) 1 found ([], []) = (results s, errors s)"
    by (simp add: s)
  have tr: "tracks 1 found (results s) (errors s)"
    using process_article_loop_tracks [OF lp] .
  have r: "\<forall>r \<in> set (results s).
              1 \<le> r_index r \<and> r_index r \<le> length found \<and>
              r_image_url r = d_url (found ! (r_index r - 1))"
    using tracks_bounds(1) [OF tr] tr by (auto simp: tracks_def)
  have e: "\<forall>e \<in> set (errors s).
              1 \<le> e_index e \<and> e_index e \<le> length found \<and>
              e_url e = d_url (found ! (e_index e - 1))"
    using tracks_bounds(2) [OF tr] tr by (auto simp: tracks_def)
  have i: "\<forall>f. process_article_loop w prompt (t + 2) 1
                   (map (\<lambda>d. d\<lparr>d_index := f d\<rparr>) found) ([], [])
                 = (results s, errors s)"
    using lp by (simp add: process_article_loop_ignores_d_index)
  show "\<exists>found. scrape_article_images w (t + 1) url None = Inr found \<and>
         (\<forall>r \<in> set (results s).
            1 \<le> r_index r \<and> r_index r \<le> length found \<and>
            r_image_url r = d_url (found ! (r_index r - 1))) \<and>
         (\<forall>e \<in> set (errors s).
            1 \<le> e_index e \<and> e_index e \<le> length found \<and>
            e_url e = d_url (found ! (e_index e - 1))) \<and>
         (\<forall>f. process_article_loop w prompt (t + 2) 1
                 (map (\<lambda>d. d\<lparr>d_index := f d\<rparr>) found) ([], [])
               = (results s, errors s))"
    using sc r e i by blast
qed

theorem record_index_is_position_in_capped_list_witness:
  "process_url logo_then_photo 200 0 page_url None None =
     Inr \<lparr> s_url = page_url, s_title = ''Page'', total_images_found = 1,
           images_processed = 1, images_failed = 0,
           results = [\<lparr> r_image_url = ''https://example.com/cat.jpg'', r_caption = ''a picture'',
                        r_alt = ''Cat'', r_title = Some [], r_original_caption = None,
                        r_width = 300, r_height = 300, r_index = 1 \<rparr>],
           errors = [] \<rparr>
   \<and> process_url_loop logo_then_photo 200 None 2 1
        [\<lparr> d_url = ''https://example.com/cat.jpg'', d_alt = ''Cat'', d_title = [],
            d_width = Some [], d_height = Some [], d_caption = None, d_index = 7 \<rparr>] ([], [])
      = ([\<lparr> r_image_url = ''https://example.com/cat.jpg'', r_caption = ''a picture'',
              r_alt = ''Cat'', r_title = Some [], r_original_caption = None,
              r_width = 300, r_height = 300, r_index = 1 \<rparr>], [])"
proof -
  from record_index_is_position_in_capped_list
         [THEN conjunct1, THEN mp, OF logo_then_photo_run]
  have "\<forall>f. process_url_loop logo_then_photo 200 None (0 + 2) 1
               (map (\<lambda>d. d\<lparr>d_index := f d\<rparr>)
                  [\<lparr> d_url = ''https://example.com/cat.jpg'', d_alt = ''Cat'', d_title = [],
                      d_width = Some [], d_height = Some [], d_caption = None, d_index = 2 \<rparr>])
               ([], [])
             = ([\<lparr> r_image_url = ''https://example.com/cat.jpg'', r_caption = ''a picture'',
                    r_alt = ''Cat'', r_title = Some [], r_original_caption = None,
                    r_width = 300, r_height = 300, r_index = 1 \<rparr>], [])"
    by (simp add: logo_then_photo_scrape cap_images_def)
  from this [rule_format, of "\<lambda>d. 7"] logo_then_photo_run
  show ?thesis by (simp add: numeral_2_eq_2)
qed

text \<open>
  C6. When \<open>max_images\<close> is set (a positive integer), \<open>process_url\<close> processes the first
  \<open>max_images\<close> descriptors of the scraped list and no others, and \<open>total_images_found\<close>
  is the length of that truncated list, the smaller of \<open>max_images\<close> and the number
  scraped. The scraped list ascends in sequence index, so its first entries are the ones
  with the smallest indexes. Five descriptors and \<open>max_images\<close> = 3 give
  \<open>total_images_found\<close> = 3.
\<close>

theorem max_images_truncates_descriptors:
  assumes "0 < m" and "scrape_images w (t + 1) url 200 200 = Inr found"
  shows "\<exists>s. process_url w ms t url prompt (Some m) = Inr s \<and>
           total_images_found s = length (take (nat m) found) \<and>
           total_images_found s = min (nat m) (length found) \<and>
           (results s, errors s)
             = process_url_loop w ms prompt (t + 2) 1 (take (nat m) found) ([], []) \<and>
           tracks 1 (take (nat m) found) (results s) (errors s) \<and>
           sorted_wrt (<) (map d_index found) \<and>
           (length found = 5 \<and> m = 3 \<longrightarrow> total_images_found s = 3)"
proof -
  obtain title where ti: "get_page_title w t url = Inr title"
    using get_page_title_returns by blast
  have cap: "cap_images (Some m) found = take (nat m) found"
    using assms(1) by (simp add: cap_images_def slice_to_def)
  define out where "out = process_url_loop w ms prompt (t + 2) 1 (take (nat m) found) ([], [])"
  define s where "s = \<lparr> s_url = url, s_title = title,
                         total_images_found = length (take (nat m) found),
                         images_processed = length (fst out),
                         images_failed = length (snd out),
                         results = fst out, errors = snd out \<rparr>"
  have run: "process_url w ms t url prompt (Some m) = Inr s"
    unfolding process_url_def ti assms(2)
    by (simp add: cap s_def out_def Let_def)
  have lp: "process_url_loop w ms prompt (t + 2) 1 (take (nat m) found) ([], [])
              = (results s, errors s)"
    by (simp add: s_def out_def)
  have tr: "tracks 1 (take (nat m) found) (results s) (errors s)"
    using process_url_loop_tracks [OF lp] .
  have so: "sorted_wrt (<) (map d_index found)"
    using scrape_images_invariants(1) [OF assms(2)] .
  have t1: "total_images_found s = length (take (nat m) found)"
    by (simp add: s_def)
  have t2: "total_images_found s = min (nat m) (length found)"
    by (simp add: s_def min_def)
  have t3: "length found = 5 \<and> m = 3 \<longrightarrow> total_images_found s = 3"
    by (simp add: s_def)
  show ?thesis
    using run t1 t2 lp [symmetric] tr so t3 by blast
qed

theorem max_images_truncates_descriptors_witness:
  "(0::int) < 3
   \<and> scrape_images five_photos (0 + 1) page_url 200 200
     = Inr [\<lparr> d_url = ''https://example.com/1.jpg'', d_alt = [], d_title = [],
               d_width = Some [], d_height = Some [], d_caption = None, d_index = 1 \<rparr>,
            \<lparr> d_url = ''https://example.com/2.jpg'', d_alt = [], d_title = [],
               d_width = Some [], d_height = Some [], d_caption = None, d_index = 2 \<rparr>,
            \<lparr> d_url = ''https://example.com/3.jpg'', d_alt = [], d_title = [],
               d_width = Some [], d_height = Some [], d_caption = None, d_index = 3 \<rparr>,
            \<lparr> d_url = ''https://example.com/4.jpg'', d_alt = [], d_title = [],
               d_width = Some [], d_height = Some [], d_caption = None, d_index = 4 \<rparr>,
            \<lparr> d_url = ''https://example.com/5.jpg'', d_alt = [], d_title = [],
               d_width = Some [], d_height = Some [], d_caption = None, d_index = 5 \<rparr>]
   \<and> (\<exists>s. process_url five_photos 200 0 page_url None (Some 3) = Inr s
            \<and> total_images_found s = 3)"
proof -
  have pos: "(0::int) < 3" by simp
  from max_images_truncates_descriptors
         [OF pos five_photos_scrape [of "0 + 1" 200 200], of 200 None]
  have "\<exists>s. process_url five_photos 200 0 page_url None (Some 3) = Inr s
            \<and> total_images_found s = 3"
    by auto
  then show ?thesis
    using pos five_photos_scrape [of "0 + 1" 200 200] by simp
qed

section \<open>Degraded conditions\<close>

lemma find_content_None_iff:
  "find_content sp sels = None \<longleftrightarrow> (\<forall>sel \<in> set sels. select_one sp sel = None)"
  by (induction sels) (auto split: option.splits)

lemma first_request_fails_later:
  assumes "t \<noteq> 0"
  shows "scrape_images (first_request_fails w) t url a b = scrape_images w t url a b"
proof -
  have g: "get_checked (first_request_fails w) t url = get_checked w t url"
    using assms by (simp add: get_checked_def first_request_fails_def)
  have u: "urljoin (first_request_fails w) = urljoin w"
    and h: "html_parser (first_request_fails w) = html_parser w"
    by (simp_all add: first_request_fails_def)
  show ?thesis
    by (simp only: scrape_images_def g u h)
qed

lemma first_request_fails_title:
  "get_page_title_try (first_request_fails w) 0 url = Inl (RequestException ''timed out'')"
  by (simp add: get_page_title_try_def get_checked_def first_request_fails_def)

text \<open>
  C9. The title fetch never raises: \<open>get_page_title\<close> returns a string, and the empty
  string when its fetch or its parse fails. A run whose title fetch failed is not aborted
  by it: if the scrape returns, the run returns a summary with the empty title, in both
  modes, and the only exception a run can raise is the one of its scrape. In article scope,
  when no content selector matches, the scraper extracts from the \<open>img\<close> elements of the
  whole page.
\<close>

theorem degraded_conditions_are_not_fatal:
  "(\<exists>title. get_page_title w t url = Inr title)
   \<and> (\<forall>e. get_page_title_try w t url = Inl e \<longrightarrow> get_page_title w t url = Inr [])
   \<and> (\<forall>e found. get_page_title_try w t url = Inl e
          \<and> scrape_images w (t + 1) url 200 200 = Inr found \<longrightarrow>
        (\<exists>s. process_url w ms t url prompt max_images = Inr s \<and> s_title s = []))
   \<and> (\<forall>e found. get_page_title_try w t url = Inl e
          \<and> scrape_article_images w (t + 1) url None = Inr found \<longrightarrow>
        (\<exists>s. process_article w t url prompt = Inr s \<and> s_title s = []))
   \<and> (\<forall>e. process_url w ms t url prompt max_images = Inl e \<longrightarrow>
          scrape_images w (t + 1) url 200 200 = Inl e)
   \<and> (\<forall>e. process_article w t url prompt = Inl e \<longrightarrow>
          scrape_article_images w (t + 1) url None = Inl e)
   \<and> (\<forall>body sp. get_checked w t url = Inr body \<and> html_parser w body = Inr sp
          \<and> (\<forall>sel \<in> set (case content_selectors of
                             None \<Rightarrow> default_content_selectors | Some cs \<Rightarrow> cs).
                select_one sp sel = None) \<longrightarrow>
        scrape_article_images w t url content_selectors
          = scrape_article_loop (urljoin w) url 1 (find_all_img sp) [])"
proof -
  have 1: "\<exists>title. get_page_title w t url = Inr title"
    by (rule get_page_title_returns)
  have 2: "\<forall>e. get_page_title_try w t url = Inl e \<longrightarrow> get_page_title w t url = Inr []"
    by (simp add: get_page_title_def)
  have 3: "\<forall>e found. get_page_title_try w t url = Inl e
          \<and> scrape_images w (t + 1) url 200 200 = Inr found \<longrightarrow>
        (\<exists>s. process_url w ms t url prompt max_images = Inr s \<and> s_title s = [])"
    by (simp add: process_url_def get_page_title_def Let_def)
  have 4: "\<forall>e found. get_page_title_try w t url = Inl e
          \<and> scrape_article_images w (t + 1) url None = Inr found \<longrightarrow>
        (\<exists>s. process_article w t url prompt = Inr s \<and> s_title s = [])"
    by (simp add: process_article_def get_page_title_def Let_def)
  have 5: "\<forall>e. process_url w ms t url prompt max_images = Inl e \<longrightarrow>
          scrape_images w (t + 1) url 200 200 = Inl e"
    by (auto simp: process_url_def get_page_title_def Let_def split: sum.splits)
  have 6: "\<forall>e. process_article w t url prompt = Inl e \<longrightarrow>
          scrape_article_images w (t + 1) url None = Inl e"
    by (auto simp: process_article_def get_page_title_def Let_def split: sum.splits)
  have 7: "\<forall>body sp. get_checked w t url = Inr body \<and> html_parser w body = Inr sp
          \<and> (\<forall>sel \<in> set (case content_selectors of
                             None \<Rightarrow> default_content_selectors | Some cs \<Rightarrow> cs).
                select_one sp sel = None) \<longrightarrow>
        scrape_article_images w t url content_selectors
          = scrape_article_loop (urljoin w) url 1 (find_all_img sp) []"
  proof (intro allI impI, elim conjE)
    fix body sp
    assume g: "get_checked w t url = Inr body"
      and h: "html_parser w body = Inr sp"
      and n: "\<forall>sel \<in> set (case content_selectors of
                             None \<Rightarrow> default_content_selectors | Some cs \<Rightarrow> cs).
                select_one sp sel = None"
    have "find_content sp
            (case content_selectors of None \<Rightarrow> default_content_selectors | Some cs \<Rightarrow> cs) = None"
      using n by (simp only: find_content_None_iff)
    then show "scrape_article_images w t url content_selectors
          = scrape_article_loop (urljoin w) url 1 (find_all_img sp) []"
      using g h by (simp add: scrape_article_images_def Let_def)
  qed
  show ?thesis using 1 2 3 4 5 6 7 by blast
qed

theorem degraded_conditions_are_not_fatal_witness:
  "get_page_title_try (first_request_fails logo_then_photo) 0 page_url
     = Inl (RequestException ''timed out'')
   \<and> get_page_title (first_request_fails logo_then_photo) 0 page_url = Inr []
   \<and> (\<exists>s. process_url (first_request_fails logo_then_photo) 200 0 page_url None None = Inr s
            \<and> s_title s = [])
   \<and> get_checked logo_then_photo 1 page_url = Inr ''<html>''
   \<and> html_parser logo_then_photo ''<html>''
       = Inr (page_of [img_tag [(''src'', ''/logo.svg'')],
                       img_tag [(''src'', ''/cat.jpg''), (''alt'', ''Cat'')]])
   \<and> scrape_article_images logo_then_photo 1 page_url None
       = scrape_article_loop std_urljoin page_url 1
           [img_tag [(''src'', ''/logo.svg'')], img_tag [(''src'', ''/cat.jpg''), (''alt'', ''Cat'')]] []"
proof -
  note th = degraded_conditions_are_not_fatal
              [of "first_request_fails logo_then_photo" 0 page_url 200 None None None]
  have a: "get_page_title_try (first_request_fails logo_then_photo) 0 page_url
             = Inl (RequestException ''timed out'')"
    by (rule first_request_fails_title)
  have b: "scrape_images (first_request_fails logo_then_photo) (0 + 1) page_url 200 200
             = Inr [\<lparr> d_url = ''https://example.com/cat.jpg'', d_alt = ''Cat'', d_title = [],
                       d_width = Some [], d_height = Some [], d_caption = None, d_index = 2 \<rparr>]"
    by (simp add: first_request_fails_later logo_then_photo_scrape)
  have c: "get_page_title (first_request_fails logo_then_photo) 0 page_url = Inr []"
    using th a by blast
  have d: "\<exists>s. process_url (first_request_fails logo_then_photo) 200 0 page_url None None = Inr s
            \<and> s_title s = []"
    using th a b by blast
  have e: "get_checked logo_then_photo 1 page_url = Inr ''<html>''"
    by (simp add: get_checked_def logo_then_photo_def page_world_def page_url_def
        raise_for_status_def)
  have h: "html_parser logo_then_photo ''<html>''
       = Inr (page_of [img_tag [(''src'', ''/logo.svg'')],
                       img_tag [(''src'', ''/cat.jpg''), (''alt'', ''Cat'')]])"
    by (simp add: logo_then_photo_def page_world_def)
  have f: "\<forall>sel \<in> set (case None of None \<Rightarrow> default_content_selectors | Some cs \<Rightarrow> cs).
             select_one (page_of [img_tag [(''src'', ''/logo.svg'')],
                                  img_tag [(''src'', ''/cat.jpg''), (''alt'', ''Cat'')]]) sel = None"
    by (simp add: page_of_def)
  have u: "urljoin logo_then_photo = std_urljoin"
    by (simp add: logo_then_photo_def page_world_def)
  have g: "scrape_article_images logo_then_photo 1 page_url None
       = scrape_article_loop std_urljoin page_url 1
           [img_tag [(''src'', ''/logo.svg'')], img_tag [(''src'', ''/cat.jpg''), (''alt'', ''Cat'')]] []"
    using degraded_conditions_are_not_fatal [of logo_then_photo 1 page_url _ _ _ None] e h f
    by (simp add: u page_of_def)
  show ?thesis using a c d e h g by blast
qed

section \<open>The image fetcher\<close>









section \<open>The two modes\<close>

text \<open>
  Given descriptors with the same URLs and alt texts, and the downloader's default
  minimum size in whole-page mode, an iteration of the two loops makes the same external
  calls and appends records that agree on the common fields.
\<close>

lemma items_agree:
  assumes "d_url d = d_url d'" "d_alt d = d_alt d'"
    and "map common_fields rs = map common_fields ra"
    and "map failure_key es = map failure_key ea"
    and "process_url_item w default_min_size p t idx d (rs, es) = ((rs1, es1), t1)"
    and "process_article_item w p t idx d' (ra, ea) = ((ra1, ea1), t1')"
  shows "t1 = t1' \<and> map common_fields rs1 = map common_fields ra1
           \<and> map failure_key es1 = map failure_key ea1"
  using assms
  by (auto simp: process_url_item_def process_article_item_def common_fields_def
      failure_key_def split: sum.splits option.splits)

lemma loops_agree:
  assumes "map d_url ds = map d_url ds'" "map d_alt ds = map d_alt ds'"
    and "map common_fields rs = map common_fields ra"
    and "map failure_key es = map failure_key ea"
  shows "map common_fields (fst (process_url_loop w default_min_size p t idx ds (rs, es)))
           = map common_fields (fst (process_article_loop w p t idx ds' (ra, ea)))
       \<and> map failure_key (snd (process_url_loop w default_min_size p t idx ds (rs, es)))
           = map failure_key (snd (process_article_loop w p t idx ds' (ra, ea)))"
  using assms
proof (induction ds arbitrary: ds' t idx rs es ra ea)
  case Nil
  then show ?case by simp
next
  case (Cons d ds)
  from Cons.prems(1) obtain d' rest where ds': "ds' = d' # rest"
    by (cases ds') auto
  have hd: "d_url d = d_url d'" "d_alt d = d_alt d'"
    and tl: "map d_url ds = map d_url rest" "map d_alt ds = map d_alt rest"
    using Cons.prems(1,2) ds' by auto
  obtain rs1 es1 t1 where
    u: "process_url_item w default_min_size p t idx d (rs, es) = ((rs1, es1), t1)"
    by (metis prod.exhaust)
  obtain ra1 ea1 t1' where
    a: "process_article_item w p t idx d' (ra, ea) = ((ra1, ea1), t1')"
    by (metis prod.exhaust)
  have ag: "t1 = t1'" "map common_fields rs1 = map common_fields ra1"
      "map failure_key es1 = map failure_key ea1"
    using items_agree [OF hd Cons.prems(3,4) u a] by auto
  show ?case
    using Cons.IH [OF tl ag(2,3), of t1 "idx + 1"] u a ag(1) ds' by simp
qed

text \<open>
  C5, as the claim states it, fails. On the same page, with no selector matching and
  the default minimum size, the two modes differ in more than the extra field: the result
  of article mode has \<open>original_caption\<close> and lacks the \<open>title\<close> that the result of
  whole-page mode has, and the failure of the same download is recorded as
  \<open>Download failed\<close> in article mode and as \<open>Download failed or image too small\<close> in
  whole-page mode. Article mode also takes no \<open>max_images\<close>: it has no capping step.
\<close>

theorem modes_differ_beyond_scope_and_extra_field:
  "process_url cat_and_missing 200 0 page_url None None =
     Inr \<lparr> s_url = page_url, s_title = ''Page'', total_images_found = 2,
           images_processed = 1, images_failed = 1,
           results = [\<lparr> r_image_url = ''https://example.com/cat.jpg'', r_caption = ''a picture'',
                        r_alt = ''Cat'', r_title = Some ''My cat'', r_original_caption = None,
                        r_width = 300, r_height = 300, r_index = 1 \<rparr>],
           errors = [\<lparr> e_index = 2, e_url = ''https://example.com/missing.png'',
                       e_error = ''Download failed or image too small'' \<rparr>] \<rparr>
   \<and> process_article cat_and_missing 0 page_url None =
     Inr \<lparr> s_url = page_url, s_title = ''Page'', total_images_found = 2,
           images_processed = 1, images_failed = 1,
           results = [\<lparr> r_image_url = ''https://example.com/cat.jpg'', r_caption = ''a picture'',
                        r_alt = ''Cat'', r_title = None, r_original_caption = Some [],
                        r_width = 300, r_height = 300, r_index = 1 \<rparr>],
           errors = [\<lparr> e_index = 2, e_url = ''https://example.com/missing.png'',
                       e_error = ''Download failed'' \<rparr>] \<rparr>"
  using cat_and_missing_run cat_and_missing_run_article by simp

text \<open>
  C5, amended. Both modes fetch the title, extract, run the per-item loop and
  aggregate. When the two extractions deliver descriptors with the same URLs and alt
  texts, whole-page mode runs without \<open>max_images\<close> and the pipeline's minimum image size
  is the downloader's default of 200, the two summaries have the same url, title and
  counts, their results agree on index, image URL, caption, alt text, width and height,
  and their failures agree on index and URL. The modes differ in the extraction scope,
  in the capping step (whole-page mode only), in the result fields \<open>title\<close> (whole-page
  mode only) and \<open>original_caption\<close> (article mode only) and in the text of a download
  failure.
\<close>

theorem modes_agree_on_common_fields:
  assumes "scrape_images w (t + 1) url 200 200 = Inr du"
    and "scrape_article_images w (t + 1) url None = Inr da"
    and "map d_url du = map d_url da" and "map d_alt du = map d_alt da"
  shows "\<exists>su sa. process_url w default_min_size t url prompt None = Inr su
           \<and> process_article w t url prompt = Inr sa
           \<and> s_url su = s_url sa \<and> s_title su = s_title sa
           \<and> total_images_found su = total_images_found sa
           \<and> images_processed su = images_processed sa
           \<and> images_failed su = images_failed sa
           \<and> map common_fields (results su) = map common_fields (results sa)
           \<and> map failure_key (errors su) = map failure_key (errors sa)"
proof -
  obtain title where ti: "get_page_title w t url = Inr title"
    using get_page_title_returns by blast
  define ou where "ou = process_url_loop w default_min_size prompt (t + 2) 1 du ([], [])"
  define oa where "oa = process_article_loop w prompt (t + 2) 1 da ([], [])"
  define su where "su = \<lparr> s_url = url, s_title = title, total_images_found = length du,
                           images_processed = length (fst ou), images_failed = length (snd ou),
                           results = fst ou, errors = snd ou \<rparr>"
  define sa where "sa = \<lparr> s_url = url, s_title = title, total_images_found = length da,
                           images_processed = length (fst oa), images_failed = length (snd oa),
                           results = fst oa, errors = snd oa \<rparr>"
  have ru: "process_url w default_min_size t url prompt None = Inr su"
    unfolding process_url_def ti assms(1)
    by (simp add: cap_images_def su_def ou_def Let_def)
  have ra: "process_article w t url prompt = Inr sa"
    unfolding process_article_def ti assms(2)
    by (simp add: sa_def oa_def Let_def)
  have ag: "map common_fields (fst ou) = map common_fields (fst oa)
              \<and> map failure_key (snd ou) = map failure_key (snd oa)"
    unfolding ou_def oa_def
    by (rule loops_agree [OF assms(3,4)]) simp_all
  have len: "length du = length da"
    using assms(3) by (rule map_eq_imp_length_eq)
  have lr: "length (fst ou) = length (fst oa)"
    using ag by (metis length_map)
  have le: "length (snd ou) = length (snd oa)"
    using ag by (metis length_map)
  have "s_url su = s_url sa \<and> s_title su = s_title sa
           \<and> total_images_found su = total_images_found sa
           \<and> images_processed su = images_processed sa
           \<and> images_failed su = images_failed sa
           \<and> map common_fields (results su) = map common_fields (results sa)
           \<and> map failure_key (errors su) = map failure_key (errors sa)"
    using ag len lr le by (simp add: su_def sa_def)
  with ru ra show ?thesis by blast
qed

theorem modes_agree_on_common_fields_witness:
  "scrape_images cat_and_missing (0 + 1) page_url 200 200
     = Inr [\<lparr> d_url = ''https://example.com/cat.jpg'', d_alt = ''Cat'', d_title = ''My cat'',
               d_width = Some [], d_height = Some [], d_caption = None, d_index = 1 \<rparr>,
            \<lparr> d_url = ''https://example.com/missing.png'', d_alt = [], d_title = [],
               d_width = Some [], d_height = Some [], d_caption = None, d_index = 2 \<rparr>]
   \<and> scrape_article_images cat_and_missing (0 + 1) page_url None
     = Inr [\<lparr> d_url = ''https://example.com/cat.jpg'', d_alt = ''Cat'', d_title = ''My cat'',
               d_width = None, d_height = None, d_caption = Some [], d_index = 1 \<rparr>,
            \<lparr> d_url = ''https://example.com/missing.png'', d_alt = [], d_title = [],
               d_width = None, d_height = None, d_caption = Some [], d_index = 2 \<rparr>]
   \<and> (\<exists>su sa. process_url cat_and_missing default_min_size 0 page_url None None = Inr su
         \<and> process_article cat_and_missing 0 page_url None = Inr sa
         \<and> map common_fields (results su) = map common_fields (results sa)
         \<and> map failure_key (errors su) = map failure_key (errors sa))"
proof -
  have "\<exists>su sa. process_url cat_and_missing default_min_size 0 page_url None None = Inr su
         \<and> process_article cat_and_missing 0 page_url None = Inr sa
         \<and> map common_fields (results su) = map common_fields (results sa)
         \<and> map failure_key (errors su) = map failure_key (errors sa)"
    using modes_agree_on_common_fields
            [OF cat_and_missing_scrape [of "0 + 1" 200 200]
                cat_and_missing_scrape_article [of "0 + 1"], of None]
    by auto
  then show ?thesis
    using cat_and_missing_scrape [of "0 + 1" 200 200] cat_and_missing_scrape_article [of "0 + 1"]
    by simp
qed


end
